theory Spec2Isabelle
  imports Main "HOL-Library.Word"
begin

unbundle bit_operations_syntax

section \<open>JavaScript values used by the cache\<close>

text \<open>
  A \<open>Buffer\<close> is a list of bytes. A JavaScript number is an IEEE-754 binary64 value and is
  represented by its 64-bit pattern (sign bit 63, biased exponent in bits 52..62, fraction
  in bits 0..51), so that \<open>writeDoubleLE\<close> and \<open>readDoubleLE\<close> are plain byte
  shuffling. A value that may be \<open>undefined\<close> (an omitted argument, a missing property)
  is an \<open>option\<close>, with \<open>None\<close> for \<open>undefined\<close>.
\<close>

type_synonym byte = "8 word"
type_synonym buffer = "byte list"
type_synonym number = "64 word"

definition dbl_neg :: "number \<Rightarrow> bool" where
  "dbl_neg d = bit d 63"

definition dbl_mag :: "number \<Rightarrow> nat" where
  "dbl_mag d = unat (take_bit 63 d)"

definition dbl_exp :: "number \<Rightarrow> nat" where
  "dbl_exp d = unat (take_bit 11 (drop_bit 52 d))"

definition dbl_frac :: "number \<Rightarrow> nat" where
  "dbl_frac d = unat (take_bit 52 d)"

definition isNaN :: "number \<Rightarrow> bool" where
  "isNaN d = (dbl_exp d = 2047 \<and> dbl_frac d \<noteq> 0)"

definition isInf :: "number \<Rightarrow> bool" where
  "isInf d = (dbl_exp d = 2047 \<and> dbl_frac d = 0)"

text \<open>
  Among the values that are not NaN, the numeric order is the order of the sign-magnitude
  reading of the bit pattern; the two zeros both read as 0.
\<close>

definition dbl_ord :: "number \<Rightarrow> int" where
  "dbl_ord d = (if dbl_neg d then - int (dbl_mag d) else int (dbl_mag d))"

text \<open>\<open>a < b\<close> on numbers: false as soon as one side is NaN.\<close>

definition js_lt :: "number \<Rightarrow> number \<Rightarrow> bool" where
  "js_lt a b = (\<not> isNaN a \<and> \<not> isNaN b \<and> dbl_ord a < dbl_ord b)"

text \<open>\<open>a === b\<close> on numbers.\<close>

definition js_eq :: "number \<Rightarrow> number \<Rightarrow> bool" where
  "js_eq a b = (\<not> isNaN a \<and> \<not> isNaN b \<and> dbl_ord a = dbl_ord b)"

text \<open>\<open>a >= b\<close> on numbers.\<close>

definition js_ge :: "number \<Rightarrow> number \<Rightarrow> bool" where
  "js_ge a b = (\<not> isNaN a \<and> \<not> isNaN b \<and> dbl_ord b \<le> dbl_ord a)"

text \<open>\<open>x < b\<close> where \<open>x\<close> may be \<open>undefined\<close>: \<open>undefined\<close> converts to NaN.\<close>

definition js_less :: "number option \<Rightarrow> number \<Rightarrow> bool" where
  "js_less x b = (case x of None \<Rightarrow> False | Some a \<Rightarrow> js_lt a b)"

text \<open>The falsy numbers are \<open>+0\<close>, \<open>-0\<close> and NaN; \<open>undefined\<close> is falsy too.\<close>

definition js_falsy :: "number \<Rightarrow> bool" where
  "js_falsy d = (isNaN d \<or> dbl_mag d = 0)"

text \<open>\<open>x || d\<close> for a number or \<open>undefined\<close> on the left and a number on the right.\<close>

definition js_or :: "number option \<Rightarrow> number \<Rightarrow> number" where
  "js_or x d = (case x of None \<Rightarrow> d | Some v \<Rightarrow> if js_falsy v then d else v)"

subsection \<open>Addition of numbers\<close>

text \<open>
  A finite number is \<open>dbl_sig d * 2 ^ (dbl_scale d - 1075)\<close>. The sum of two finite
  numbers is computed exactly on integers and rounded to the nearest representable value,
  ties to even, as IEEE-754 prescribes for \<open>+\<close>.
\<close>

definition dbl_scale :: "number \<Rightarrow> nat" where
  "dbl_scale d = (if dbl_exp d = 0 then 1 else dbl_exp d)"

definition dbl_sig :: "number \<Rightarrow> int" where
  "dbl_sig d =
     (let m = (if dbl_exp d = 0 then dbl_frac d else 2 ^ 52 + dbl_frac d)
      in if dbl_neg d then - int m else int m)"

definition dbl_pack :: "bool \<Rightarrow> nat \<Rightarrow> nat \<Rightarrow> number" where
  "dbl_pack s e f = (if s then push_bit 63 1 else 0) OR push_bit 52 (of_nat e) OR of_nat f"

fun bit_length :: "nat \<Rightarrow> nat" where
  "bit_length n = (if n = 0 then 0 else Suc (bit_length (n div 2)))"

declare bit_length.simps [simp del]

text \<open>The number nearest to \<open>\<plusminus> m * 2 ^ (p - 1075)\<close>, for \<open>0 < m\<close> and \<open>1 \<le> p\<close>.\<close>

definition dbl_round :: "bool \<Rightarrow> nat \<Rightarrow> nat \<Rightarrow> number" where
  "dbl_round s m p =
     (let n = bit_length m in
      if n \<le> 53 then
        (let k = min (53 - n) (p - 1); m' = m * 2 ^ k
         in if m' < 2 ^ 52 then dbl_pack s 0 m' else dbl_pack s (p - k) (m' - 2 ^ 52))
      else
        (let r = n - 53; q = m div 2 ^ r; rem = m mod 2 ^ r;
             q' = (if 2 ^ r < 2 * rem \<or> (2 * rem = 2 ^ r \<and> odd q) then q + 1 else q);
             r' = (if q' = 2 ^ 53 then r + 1 else r);
             q'' = (if q' = 2 ^ 53 then 2 ^ 52 else q')
         in if 2047 \<le> p + r' then dbl_pack s 2047 0 else dbl_pack s (p + r') (q'' - 2 ^ 52)))"

definition js_add :: "number \<Rightarrow> number \<Rightarrow> number" where
  "js_add a b =
     (if isNaN a \<or> isNaN b then dbl_pack False 2047 (2 ^ 51)
      else if isInf a then
        (if isInf b \<and> dbl_neg a \<noteq> dbl_neg b then dbl_pack False 2047 (2 ^ 51) else a)
      else if isInf b then b
      else
        (let p = min (dbl_scale a) (dbl_scale b);
             s = dbl_sig a * 2 ^ (dbl_scale a - p) + dbl_sig b * 2 ^ (dbl_scale b - p)
         in if s = 0 then dbl_pack (dbl_neg a \<and> dbl_neg b) 0 0
            else dbl_round (s < 0) (nat \<bar>s\<bar>) p))"

subsection \<open>Buffers\<close>

text \<open>\<open>char.charCodeAt(0)\<close> for the ASCII characters of the header literals.\<close>

definition charCodeAt0 :: "char \<Rightarrow> byte" where
  "charCodeAt0 c = of_char c"

text \<open>
  \<open>data.writeDoubleLE(v, off, true)\<close> and \<open>data.readDoubleLE(off, true)\<close>: the eight
  bytes of the bit pattern, least significant first, at offset \<open>off\<close>. Both are only
  called with the eight bytes inside the buffer.
\<close>

definition doubleLE :: "number \<Rightarrow> buffer" where
  "doubleLE v = map (\<lambda>i. ucast (drop_bit (8 * i) v)) [0..<8]"

definition writeDoubleLE :: "buffer \<Rightarrow> number \<Rightarrow> nat \<Rightarrow> buffer" where
  "writeDoubleLE data v off = take off data @ doubleLE v @ drop (off + 8) data"

definition readDoubleLE :: "buffer \<Rightarrow> nat \<Rightarrow> number" where
  "readDoubleLE data off = foldr (\<lambda>b w. ucast b OR push_bit 8 w) (take 8 (drop off data)) 0"

section \<open>Errors\<close>

text \<open>
  The errors of the file system are plain \<open>Error\<close> objects with an errno code. A
  \<open>YError\<close> has a code and parameters; \<open>YError.wrap(err, code, key)\<close> builds a new
  \<open>YError\<close> around \<open>err\<close>, and \<open>YError.cast(err, code, key)\<close> does so only when
  \<open>err\<close> is not a \<open>YError\<close> already.
\<close>

datatype errno = ENOENT | EEXIST | EACCES | EBADF | EIO

datatype error =
    SysError errno
  | E_END_OF_LIFE "number option"
  | E_BAD_HEADER_SIZE nat
  | E_BAD_HEADER_FMT buffer
  | E_BAD_WRITE nat
  | E_NOENT string error
  | E_ACCESS string error
  | E_UNEXPECTED error

fun is_YError :: "error \<Rightarrow> bool" where
  "is_YError (SysError e) = False"
| "is_YError err = True"

definition YError_cast :: "error \<Rightarrow> (error \<Rightarrow> error) \<Rightarrow> error" where
  "YError_cast err mk = (if is_YError err then err else mk err)"

fun err_code :: "error \<Rightarrow> string" where
  "err_code (SysError e) = ''Error''"
| "err_code (E_END_OF_LIFE n) = ''E_END_OF_LIFE''"
| "err_code (E_BAD_HEADER_SIZE n) = ''E_BAD_HEADER_SIZE''"
| "err_code (E_BAD_HEADER_FMT d) = ''E_BAD_HEADER_FMT''"
| "err_code (E_BAD_WRITE n) = ''E_BAD_WRITE''"
| "err_code (E_NOENT k e) = ''E_NOENT''"
| "err_code (E_ACCESS k e) = ''E_ACCESS''"
| "err_code (E_UNEXPECTED e) = ''E_UNEXPECTED''"

section \<open>The bucket header\<close>

record header =
  eol :: "number option"

definition HEADER_FLAG :: string where
  "HEADER_FLAG = ''BUCK''"

definition HEADER_SIZE :: nat where
  "HEADER_SIZE = length HEADER_FLAG + 16"

text \<open>
  \<open>_encodeHeader(header)\<close> (\<open>_createHeader\<close> in the callback version, with the same
  body): the literal \<open>BUCKxxxxxxxxxxxxxxxx\<close> as bytes, with \<open>header.eol || 0\<close> written as
  a little-endian double after the flag. The argument may be \<open>undefined\<close>.
\<close>

definition encodeHeader :: "header option \<Rightarrow> buffer" where
  "encodeHeader header =
     (let data = map charCodeAt0 ''BUCKxxxxxxxxxxxxxxxx'';
          header' = (case header of None \<Rightarrow> \<lparr>eol = None\<rparr> | Some h \<Rightarrow> h);
          eol' = js_or (eol header') 0
      in writeDoubleLE data eol' (length HEADER_FLAG))"

text \<open>
  \<open>_decodeHeader(data)\<close> (\<open>_readHeader\<close> in the callback version): the size check, the
  check of the flag, character by character, then the double after the flag.
\<close>

definition decodeHeader :: "buffer \<Rightarrow> error + header" where
  "decodeHeader data =
     (if HEADER_SIZE > length data then Inl (E_BAD_HEADER_SIZE (length data))
      else if list_ex (\<lambda>(char, i). data ! i \<noteq> charCodeAt0 char)
                (zip HEADER_FLAG [0..<length HEADER_FLAG])
        then Inl (E_BAD_HEADER_FMT data)
      else Inr \<lparr>eol = Some (readDoubleLE data (length HEADER_FLAG))\<rparr>)"

section \<open>The file system\<close>

text \<open>
  The \<open>fs\<close> service is Node's \<open>fs\<close> module. Its state is the content of the files, the
  table of open file descriptors, and what makes its calls fail: the paths on which every
  call is refused (\<open>EACCES\<close>), and how \<open>fs.write\<close> behaves (it may write fewer bytes than
  asked, or fail). A call issued from the callback of another comes after it. Two calls
  issued one after the other with nothing awaited in between are in flight at once: the
  one issued second may be carried out first, and its callback may run first.
\<close>

type_synonym path = string
type_synonym fd = nat

datatype write_fault = WriteAll | WriteShort nat | WriteFails errno

record filesystem =
  files :: "path \<rightharpoonup> buffer"
  denied :: "path set"
  fds :: "fd \<rightharpoonup> path"
  next_fd :: fd
  write_fault :: write_fault
  second_runs_first :: bool
  second_done_first :: bool

text \<open>
  The options object of a write. \<open>fs.writeFile(file, data, options, callback)\<close> reads
  \<open>options.flag\<close> (default \<open>'w'\<close>); \<open>fs.createWriteStream(path, options)\<close> reads
  \<open>options.flags\<close> (default \<open>'w'\<close>). Each ignores the property it does not know.
\<close>

record write_options =
  flag :: "string option"
  flags :: "string option"

text \<open>
  Opening for writing: \<open>'w'\<close> creates the file or truncates it, \<open>'wx'\<close> fails with
  \<open>EEXIST\<close> when the path exists.
\<close>

definition open_for_write :: "filesystem \<Rightarrow> path \<Rightarrow> string \<Rightarrow> errno + filesystem" where
  "open_for_write fs p fl =
     (if p \<in> denied fs then Inl EACCES
      else if fl = ''wx'' \<and> files fs p \<noteq> None then Inl EEXIST
      else Inr (fs\<lparr>files := (files fs)(p \<mapsto> [])\<rparr>))"

definition fs_readFile :: "filesystem \<Rightarrow> path \<Rightarrow> errno + buffer" where
  "fs_readFile fs p =
     (if p \<in> denied fs then Inl EACCES
      else case files fs p of None \<Rightarrow> Inl ENOENT | Some data \<Rightarrow> Inr data)"

definition fs_writeFile ::
  "filesystem \<Rightarrow> path \<Rightarrow> buffer \<Rightarrow> write_options \<Rightarrow> errno + filesystem" where
  "fs_writeFile fs p data options =
     (case open_for_write fs p (case flag options of None \<Rightarrow> ''w'' | Some fl \<Rightarrow> fl) of
        Inl err \<Rightarrow> Inl err
      | Inr fs' \<Rightarrow> Inr (fs'\<lparr>files := (files fs')(p \<mapsto> data)\<rparr>))"

definition fs_unlink :: "filesystem \<Rightarrow> path \<Rightarrow> errno + filesystem" where
  "fs_unlink fs p =
     (if p \<in> denied fs then Inl EACCES
      else if files fs p = None then Inl ENOENT
      else Inr (fs\<lparr>files := (files fs)(p := None)\<rparr>))"

definition fs_rename :: "filesystem \<Rightarrow> path \<Rightarrow> path \<Rightarrow> errno + filesystem" where
  "fs_rename fs old new =
     (if old \<in> denied fs \<or> new \<in> denied fs then Inl EACCES
      else case files fs old of
        None \<Rightarrow> Inl ENOENT
      | Some data \<Rightarrow>
          if old = new then Inr fs
          else Inr (fs\<lparr>files := ((files fs)(new \<mapsto> data))(old := None)\<rparr>))"

text \<open>\<open>fs.open(path, 'r+', cb)\<close>: the file must exist.\<close>

definition fs_open :: "filesystem \<Rightarrow> path \<Rightarrow> errno + fd \<times> filesystem" where
  "fs_open fs p =
     (if p \<in> denied fs then Inl EACCES
      else if files fs p = None then Inl ENOENT
      else Inr (next_fd fs, fs\<lparr>fds := (fds fs)(next_fd fs \<mapsto> p), next_fd := Suc (next_fd fs)\<rparr>))"

text \<open>
  \<open>fs.write(fd, buffer, offset, length, position, cb)\<close>: the bytes
  \<open>buffer[offset .. offset + length)\<close>, or a prefix of them, replace the bytes of the file
  from \<open>position\<close> on; the callback receives the number of bytes written.
\<close>

definition fs_write ::
  "filesystem \<Rightarrow> fd \<Rightarrow> buffer \<Rightarrow> nat \<Rightarrow> nat \<Rightarrow> nat \<Rightarrow> errno + nat \<times> filesystem" where
  "fs_write fs d buf off len pos =
     (case fds fs d of
        None \<Rightarrow> Inl EBADF
      | Some p \<Rightarrow>
          (case write_fault fs of
             WriteFails err \<Rightarrow> Inl err
           | fault \<Rightarrow>
               (let n = (case fault of WriteShort k \<Rightarrow> min k len | _ \<Rightarrow> len);
                    bytes = take n (drop off buf)
                in case files fs p of
                     None \<Rightarrow> Inr (length bytes, fs)
                   | Some old \<Rightarrow>
                       Inr (length bytes,
                            fs\<lparr>files := (files fs)(p \<mapsto>
                                 take pos old @ replicate (pos - length old) 0 @ bytes
                                 @ drop (pos + length bytes) old)\<rparr>))))"

definition fs_close :: "filesystem \<Rightarrow> fd \<Rightarrow> errno option \<times> filesystem" where
  "fs_close fs d =
     (case fds fs d of
        None \<Rightarrow> (Some EBADF, fs)
      | Some p \<Rightarrow> (None, fs\<lparr>fds := (fds fs)(d := None)\<rparr>))"

text \<open>
  Two \<open>fs.close(fd, cb)\<close> on the same descriptor in flight at once. The result is the
  error given to the callback of the first call, the error given to the callback of the
  second, and the file system: whichever close is carried out first finds the descriptor
  open, the other one \<open>EBADF\<close>.
\<close>

definition fs_close_twice ::
  "filesystem \<Rightarrow> fd \<Rightarrow> errno option \<times> errno option \<times> filesystem" where
  "fs_close_twice fs d =
     (if second_runs_first fs then
        (case fs_close fs d of
           (err_second, fs') \<Rightarrow>
             (case fs_close fs' d of (err_first, fs'') \<Rightarrow> (err_first, err_second, fs'')))
      else
        (case fs_close fs d of
           (err_first, fs') \<Rightarrow>
             (case fs_close fs' d of (err_second, fs'') \<Rightarrow> (err_first, err_second, fs''))))"

subsection \<open>Streams\<close>

text \<open>
  A readable stream is the list of the chunks it emits before it ends. A file read stream
  emits the file in chunks of \<open>highWaterMark\<close> bytes; when the file cannot be opened it
  emits \<open>'error'\<close> instead. The source streams given to \<open>setStream\<close> end without error.
\<close>

definition highWaterMark :: nat where
  "highWaterMark = 65536"

function chunksOf :: "nat \<Rightarrow> buffer \<Rightarrow> buffer list" where
  "chunksOf n data = (if n = 0 \<or> data = [] then [] else take n data # chunksOf n (drop n data))"
  by pat_completeness auto
termination
  by (relation "measure (\<lambda>(n, data). length data)") auto

declare chunksOf.simps [simp del]

definition fs_createReadStream :: "filesystem \<Rightarrow> path \<Rightarrow> errno + buffer list" where
  "fs_createReadStream fs p =
     (if p \<in> denied fs then Inl EACCES
      else case files fs p of
        None \<Rightarrow> Inl ENOENT
      | Some data \<Rightarrow> Inr (chunksOf highWaterMark data))"

text \<open>
  \<open>fs.createWriteStream(path, options)\<close> opens the file; a failure is the stream's
  \<open>'error'\<close> event. Each chunk written to the stream is appended to the file.
\<close>

definition fs_createWriteStream :: "filesystem \<Rightarrow> path \<Rightarrow> write_options \<Rightarrow> errno + filesystem" where
  "fs_createWriteStream fs p options =
     open_for_write fs p (case flags options of None \<Rightarrow> ''w'' | Some fl \<Rightarrow> fl)"

definition ws_write :: "path \<Rightarrow> filesystem \<Rightarrow> buffer \<Rightarrow> filesystem" where
  "ws_write p fs chunk =
     fs\<lparr>files := (files fs)(p \<mapsto> (case files fs p of None \<Rightarrow> chunk | Some data \<Rightarrow> data @ chunk))\<rparr>"

text \<open>\<open>source.pipe(writable)\<close>: every chunk of the source is written, then the stream ends.\<close>

definition pipe_to :: "path \<Rightarrow> filesystem \<Rightarrow> buffer list \<Rightarrow> filesystem" where
  "pipe_to p fs source = foldl (ws_write p) fs source"

text \<open>
  \<open>firstChunkStream({chunkLength: n}, cb)\<close> of the \<open>first-chunk-stream\<close> package: the
  chunks written to it are kept until \<open>n\<close> bytes have arrived (or the source has ended);
  these first bytes are given to the callback, and what follows them is passed on.
\<close>

fun firstChunk :: "nat \<Rightarrow> buffer \<Rightarrow> buffer list \<Rightarrow> buffer \<times> buffer list" where
  "firstChunk n acc [] = (acc, [])"
| "firstChunk n acc (chunk # rest) =
     (if length chunk < n - length acc then firstChunk n (acc @ chunk) rest
      else (acc @ take (n - length acc) chunk,
            if drop (n - length acc) chunk = [] then rest
            else drop (n - length acc) chunk # rest))"

subsection \<open>Paths\<close>

text \<open>
  \<open>path.join(dir, name)\<close>, and the key's path
  \<open>path.join(dir, '__' + sanitize(key) + '.bucket')\<close>. The \<open>sanitize-filename\<close> package
  is a parameter.
\<close>

definition path_join :: "string \<Rightarrow> string \<Rightarrow> path" where
  "path_join d name = d @ ''/'' @ name"

section \<open>The promise-based service\<close>

text \<open>
  \<open>initFileCache\<close> receives its services: the directory, the time to live, the clock and
  the lock. One operation reads the clock as one value. The lock service is seen through
  the calls it receives; its calls do not fail.
\<close>

record services =
  FS_CACHE_DIR :: string
  FS_CACHE_TTL :: number
  time :: number
  sanitize :: "string \<Rightarrow> string"

datatype lock_call = Take string | Release string

record world =
  fsys :: filesystem
  lock_calls :: "lock_call list"

definition lock_take :: "world \<Rightarrow> string \<Rightarrow> world" where
  "lock_take w key = w\<lparr>lock_calls := lock_calls w @ [Take key]\<rparr>"

definition lock_release :: "world \<Rightarrow> string \<Rightarrow> world" where
  "lock_release w key = w\<lparr>lock_calls := lock_calls w @ [Release key]\<rparr>"

definition keyToPath :: "services \<Rightarrow> string \<Rightarrow> path" where
  "keyToPath sv key = path_join (FS_CACHE_DIR sv) (''__'' @ sanitize sv key @ ''.bucket'')"

text \<open>The default value of the parameter \<open>eol = time() + FS_CACHE_TTL\<close>.\<close>

definition eol_param :: "services \<Rightarrow> number option \<Rightarrow> number" where
  "eol_param sv eol_arg = (case eol_arg of None \<Rightarrow> js_add (time sv) (FS_CACHE_TTL sv) | Some e \<Rightarrow> e)"

text \<open>The literal \<open>0xffffffffffffffff\<close>: as a number it is \<open>2 ^ 64\<close>.\<close>

definition MAX_EOL :: number where
  "MAX_EOL = 0x43F0000000000000"

text \<open>
  A promise is settled by the first \<open>resolve\<close> or \<open>reject\<close>; later ones are ignored.
  \<open>settled p v\<close> is the outcome of a promise in state \<open>p\<close> (\<open>None\<close> while pending) on
  which \<open>v\<close> is then resolved or rejected.
\<close>

definition settled :: "'a option \<Rightarrow> 'a \<Rightarrow> 'a" where
  "settled p v = (case p of None \<Rightarrow> v | Some v' \<Rightarrow> v')"

definition get :: "services \<Rightarrow> world \<Rightarrow> string \<Rightarrow> (error + buffer) \<times> world" where
  "get sv w key =
     (case fs_readFile (fsys w) (keyToPath sv key) of
        Inl err \<Rightarrow> (Inl (YError_cast (SysError err) (E_NOENT key)), w)
      | Inr data \<Rightarrow>
          (case decodeHeader data of
             Inl err \<Rightarrow> (Inl err, w)
           | Inr bucketHeader \<Rightarrow>
               if js_less (eol bucketHeader) (time sv)
               then (Inl (E_END_OF_LIFE (eol bucketHeader)), w)
               else (Inr (drop HEADER_SIZE data), w)))"

text \<open>
  The callback given to \<open>firstChunkStream\<close> in \<open>getStream\<close>. On success it hands back
  the replacement of the first chunk, \<open>Buffer.from('')\<close>.
\<close>

definition onFirstChunk :: "number \<Rightarrow> error option \<Rightarrow> buffer \<Rightarrow> error + buffer" where
  "onFirstChunk now err chunk =
     (case err of
        Some e \<Rightarrow> Inl (YError_cast e E_UNEXPECTED)
      | None \<Rightarrow>
          (case decodeHeader chunk of
             Inl err2 \<Rightarrow> Inl err2
           | Inr bucketHeader \<Rightarrow>
               if js_less (eol bucketHeader) now then Inl (E_END_OF_LIFE (eol bucketHeader))
               else Inr []))"

definition getStream :: "services \<Rightarrow> world \<Rightarrow> string \<Rightarrow> (error + buffer list) \<times> world" where
  "getStream sv w key =
     (case fs_createReadStream (fsys w) (keyToPath sv key) of
        Inl err \<Rightarrow> (Inl (YError_cast (SysError err) (E_NOENT key)), w)
      | Inr source \<Rightarrow>
          (case firstChunk HEADER_SIZE [] source of
             (chunk, rest) \<Rightarrow>
               (case onFirstChunk (time sv) None chunk of
                  Inl err \<Rightarrow> (Inl err, w)
                | Inr replacement \<Rightarrow> (Inr (replacement # rest), w))))"

text \<open>The promise inside \<open>set\<close>: the write of the temporary file, the unlink, the rename.\<close>

definition set_publish ::
  "filesystem \<Rightarrow> string \<Rightarrow> path \<Rightarrow> buffer \<Rightarrow> buffer \<Rightarrow> (error + unit) \<times> filesystem" where
  "set_publish fs key dest header data =
     (case fs_writeFile fs (dest @ ''.tmp'') (header @ data) \<lparr>flag = None, flags = Some ''wx''\<rparr> of
        Inl err \<Rightarrow> (Inl (YError_cast (SysError err) (E_ACCESS key)), fs)
      | Inr fs1 \<Rightarrow>
          (let fs2 = (case fs_unlink fs1 dest of Inl err \<Rightarrow> fs1 | Inr fs' \<Rightarrow> fs')
           in case fs_rename fs2 (dest @ ''.tmp'') dest of
                Inl err \<Rightarrow> (Inl (SysError err), fs2)
              | Inr fs3 \<Rightarrow> (Inr (), fs3)))"

definition set_fc ::
  "services \<Rightarrow> world \<Rightarrow> string \<Rightarrow> buffer \<Rightarrow> number option \<Rightarrow> (error + unit) \<times> world" where
  "set_fc sv w key data eol_arg =
     (let eol' = eol_param sv eol_arg;
          header = encodeHeader (Some \<lparr>eol = Some eol'\<rparr>);
          dest = keyToPath sv key
      in if js_lt eol' (time sv) then (Inl (E_END_OF_LIFE (Some eol')), w)
         else
           (let w1 = lock_take w key
            in case set_publish (fsys w1) key dest header data of
                 (Inr u, fs') \<Rightarrow> (Inr (), lock_release (w1\<lparr>fsys := fs'\<rparr>) key)
               | (Inl err, fs') \<Rightarrow> (Inl err, lock_release (w1\<lparr>fsys := fs'\<rparr>) key)))"

text \<open>The promise inside \<open>setStream\<close>: the write stream, the header, the pipe, the rename.\<close>

definition setStream_publish ::
  "filesystem \<Rightarrow> string \<Rightarrow> path \<Rightarrow> buffer \<Rightarrow> buffer list \<Rightarrow> (error + unit) \<times> filesystem" where
  "setStream_publish fs key dest header stream =
     (case fs_createWriteStream fs (dest @ ''.tmp'') \<lparr>flag = None, flags = Some ''wx''\<rparr> of
        Inl err \<Rightarrow> (Inl (YError_cast (SysError err) (E_ACCESS key)), fs)
      | Inr fs1 \<Rightarrow>
          (let fs2 = pipe_to (dest @ ''.tmp'') (ws_write (dest @ ''.tmp'') fs1 header) stream
           in case fs_rename fs2 (dest @ ''.tmp'') dest of
                Inl err \<Rightarrow> (Inl (SysError err), fs2)
              | Inr fs3 \<Rightarrow> (Inr (), fs3)))"

definition setStream ::
  "services \<Rightarrow> world \<Rightarrow> string \<Rightarrow> buffer list \<Rightarrow> number option \<Rightarrow> (error + unit) \<times> world" where
  "setStream sv w key stream eol_arg =
     (let eol0 = eol_param sv eol_arg;
          header = encodeHeader (Some \<lparr>eol = Some eol0\<rparr>);
          dest = keyToPath sv key;
          eol' = js_or (Some eol0) MAX_EOL
      in if js_lt eol' (time sv) then (Inl (E_END_OF_LIFE (Some eol')), w)
         else
           (let w1 = lock_take w key
            in case setStream_publish (fsys w1) key dest header stream of
                 (Inr u, fs') \<Rightarrow> (Inr (), lock_release (w1\<lparr>fsys := fs'\<rparr>) key)
               | (Inl err, fs') \<Rightarrow>
                   (Inl (YError_cast err (E_ACCESS key)), lock_release (w1\<lparr>fsys := fs'\<rparr>) key)))"

text \<open>
  The promise of \<open>setEOL\<close>'s update: open, write the header at position 0, close. When
  the count of bytes written is not \<open>HEADER_SIZE\<close>, \<open>fs.close\<close> is called with a
  callback that rejects with \<open>E_BAD_WRITE\<close>, and, as nothing returns there, the final
  \<open>fs.close\<close> is called right after it, with the callback that rejects with the error
  of the close or resolves. The two closes are in flight at once, and the callback that
  runs first settles the promise.
\<close>

definition setEOL_update :: "filesystem \<Rightarrow> path \<Rightarrow> number \<Rightarrow> (error + unit) \<times> filesystem" where
  "setEOL_update fs p eol' =
     (case fs_open fs p of
        Inl err \<Rightarrow> (Inl (SysError err), fs)
      | Inr (d, fs1) \<Rightarrow>
          (let header = encodeHeader (Some \<lparr>eol = Some eol'\<rparr>)
           in case fs_write fs1 d header 0 HEADER_SIZE 0 of
                Inl err2 \<Rightarrow> (Inl (SysError err2), snd (fs_close fs1 d))
              | Inr (numBytesWritten, fs2) \<Rightarrow>
                  if numBytesWritten \<noteq> HEADER_SIZE then
                    (case fs_close_twice fs2 d of
                       (err3, err, fs3) \<Rightarrow>
                         (let bad_write = Inl (E_BAD_WRITE numBytesWritten);
                              closed = (case err of
                                          Some e \<Rightarrow> Inl (SysError e)
                                        | None \<Rightarrow> Inr ())
                          in if second_done_first fs2
                             then (settled (Some closed) bad_write, fs3)
                             else (settled (Some bad_write) closed, fs3)))
                  else
                    (case fs_close fs2 d of
                       (Some err, fs3) \<Rightarrow> (Inl (SysError err), fs3)
                     | (None, fs3) \<Rightarrow> (Inr (), fs3))))"

definition setEOL ::
  "services \<Rightarrow> world \<Rightarrow> string \<Rightarrow> number option \<Rightarrow> (error + unit) \<times> world" where
  "setEOL sv w key eol_arg =
     (let eol' = eol_param sv eol_arg
      in if js_lt eol' (time sv) then
           (let w1 = lock_take w key
            in case fs_unlink (fsys w1) (keyToPath sv key) of
                 Inr fs' \<Rightarrow> (Inr (), w1\<lparr>fsys := fs'\<rparr>)
               | Inl err \<Rightarrow> (Inl (SysError err), lock_release w1 key))
         else
           (case setEOL_update (fsys w) (keyToPath sv key) eol' of
              (Inr u, fs') \<Rightarrow> (Inr (), lock_release (w\<lparr>fsys := fs'\<rparr>) key)
            | (Inl err, fs') \<Rightarrow> (Inl err, lock_release (w\<lparr>fsys := fs'\<rparr>) key)))"

section \<open>The callback-based \<open>FileCache\<close>\<close>

text \<open>
  The \<open>FileCache\<close> object holds its directory and its clock. An operation reports through
  its callback; the result of an operation is the list of the calls of the callback, in
  order, and the file system it leaves. \<open>YError.wrap\<close> always wraps.
\<close>

record FileCache =
  dir :: string
  clock :: number
  sanitizer :: "string \<Rightarrow> string"

definition fileCacheKeyToPath :: "FileCache \<Rightarrow> string \<Rightarrow> path" where
  "fileCacheKeyToPath this key = path_join (dir this) (''__'' @ sanitizer this key @ ''.bucket'')"

definition fileCacheCreateHeader :: "header option \<Rightarrow> buffer" where
  "fileCacheCreateHeader header =
     (let data = map charCodeAt0 ''BUCKxxxxxxxxxxxxxxxx'';
          header' = (case header of None \<Rightarrow> \<lparr>eol = None\<rparr> | Some h \<Rightarrow> h);
          eol' = js_or (eol header') 0
      in writeDoubleLE data eol' (length HEADER_FLAG))"

definition fileCacheReadHeader :: "buffer \<Rightarrow> error + header" where
  "fileCacheReadHeader data =
     (if HEADER_SIZE > length data then Inl (E_BAD_HEADER_SIZE (length data))
      else if list_ex (\<lambda>(char, i). data ! i \<noteq> charCodeAt0 char)
                (zip HEADER_FLAG [0..<length HEADER_FLAG])
        then Inl (E_BAD_HEADER_FMT data)
      else Inr \<lparr>eol = Some (readDoubleLE data (length HEADER_FLAG))\<rparr>)"

definition fileCacheGet :: "FileCache \<Rightarrow> filesystem \<Rightarrow> string \<Rightarrow> (error + buffer) list" where
  "fileCacheGet this fs key =
     (case fs_readFile fs (fileCacheKeyToPath this key) of
        Inl err \<Rightarrow> [Inl (E_NOENT key (SysError err))]
      | Inr data \<Rightarrow>
          (case fileCacheReadHeader data of
             Inl err2 \<Rightarrow> [Inl err2]
           | Inr bucketHeader \<Rightarrow>
               if js_less (eol bucketHeader) (clock this)
               then [Inl (E_END_OF_LIFE (eol bucketHeader))]
               else [Inr (drop HEADER_SIZE data)]))"

definition fileCacheOnFirstChunk :: "number \<Rightarrow> error option \<Rightarrow> buffer \<Rightarrow> error + buffer" where
  "fileCacheOnFirstChunk now err chunk =
     (case err of
        Some e \<Rightarrow> Inl (E_UNEXPECTED e)
      | None \<Rightarrow>
          (case fileCacheReadHeader chunk of
             Inl err2 \<Rightarrow> Inl err2
           | Inr bucketHeader \<Rightarrow>
               if js_less (eol bucketHeader) now then Inl (E_END_OF_LIFE (eol bucketHeader))
               else Inr []))"

definition fileCacheGetStream ::
  "FileCache \<Rightarrow> filesystem \<Rightarrow> string \<Rightarrow> (error + buffer list) list" where
  "fileCacheGetStream this fs key =
     (case fs_createReadStream fs (fileCacheKeyToPath this key) of
        Inl err \<Rightarrow> [Inl (E_NOENT key (SysError err))]
      | Inr source \<Rightarrow>
          (case firstChunk HEADER_SIZE [] source of
             (chunk, rest) \<Rightarrow>
               (case fileCacheOnFirstChunk (clock this) None chunk of
                  Inl err \<Rightarrow> [Inl err]
                | Inr replacement \<Rightarrow> [Inr (replacement # rest)])))"

definition fileCacheSet ::
  "FileCache \<Rightarrow> filesystem \<Rightarrow> string \<Rightarrow> buffer \<Rightarrow> number option
   \<Rightarrow> (error + unit) list \<times> filesystem" where
  "fileCacheSet this fs key data eol_arg =
     (let header = fileCacheCreateHeader (Some \<lparr>eol = eol_arg\<rparr>);
          dest = fileCacheKeyToPath this key
      in if js_less eol_arg (clock this) then ([Inl (E_END_OF_LIFE eol_arg)], fs)
         else
           (case fs_writeFile fs (dest @ ''.tmp'') (header @ data)
                   \<lparr>flag = None, flags = Some ''wx''\<rparr> of
              Inl err \<Rightarrow> ([Inl (E_ACCESS key (SysError err))], fs)
            | Inr fs1 \<Rightarrow>
                (let fs2 = (case fs_unlink fs1 dest of Inl err \<Rightarrow> fs1 | Inr fs' \<Rightarrow> fs')
                 in case fs_rename fs2 (dest @ ''.tmp'') dest of
                      Inl err \<Rightarrow> ([Inl (SysError err)], fs2)
                    | Inr fs3 \<Rightarrow> ([Inr ()], fs3))))"

text \<open>
  \<open>setStream\<close> creates the write stream before it checks \<open>eol\<close>. When the check fails
  the function returns before any listener is attached: an \<open>'error'\<close> event of the
  stream is then uncaught. The result lists the calls of the callback, the uncaught
  errors, and the file system.
\<close>

definition fileCacheSetStream ::
  "FileCache \<Rightarrow> filesystem \<Rightarrow> string \<Rightarrow> buffer list \<Rightarrow> number option
   \<Rightarrow> (error + unit) list \<times> errno list \<times> filesystem" where
  "fileCacheSetStream this fs key stream eol_arg =
     (let header = fileCacheCreateHeader (Some \<lparr>eol = eol_arg\<rparr>);
          dest = fileCacheKeyToPath this key;
          writableStream = fs_createWriteStream fs (dest @ ''.tmp'')
                             \<lparr>flag = None, flags = Some ''wx''\<rparr>;
          eol' = js_or eol_arg MAX_EOL
      in if js_lt eol' (clock this) then
           (case writableStream of
              Inl err \<Rightarrow> ([Inl (E_END_OF_LIFE (Some eol'))], [err], fs)
            | Inr fs1 \<Rightarrow> ([Inl (E_END_OF_LIFE (Some eol'))], [], fs1))
         else
           (case writableStream of
              Inl err \<Rightarrow> ([Inl (E_ACCESS key (SysError err))], [], fs)
            | Inr fs1 \<Rightarrow>
                (let fs2 = pipe_to (dest @ ''.tmp'') (ws_write (dest @ ''.tmp'') fs1 header) stream
                 in case fs_rename fs2 (dest @ ''.tmp'') dest of
                      Inl err \<Rightarrow> ([Inl (SysError err)], [], fs2)
                    | Inr fs3 \<Rightarrow> ([Inr ()], [], fs3))))"

text \<open>
  \<open>setEOL\<close>: in the update, \<open>cb(null)\<close> is called as soon as \<open>fs.write\<close> has been
  issued, and the callback is called again when the write has completed.
\<close>

definition fileCacheSetEOL ::
  "FileCache \<Rightarrow> filesystem \<Rightarrow> string \<Rightarrow> number option \<Rightarrow> (error + unit) list \<times> filesystem" where
  "fileCacheSetEOL this fs key eol_arg =
     (let eol' = js_or eol_arg 0
      in if js_lt eol' (clock this) then
           (case fs_unlink fs (fileCacheKeyToPath this key) of
              Inl err \<Rightarrow> ([Inl (SysError err)], fs)
            | Inr fs' \<Rightarrow> ([Inr ()], fs'))
         else
           (case fs_open fs (fileCacheKeyToPath this key) of
              Inl err \<Rightarrow> ([Inl (SysError err)], fs)
            | Inr (d, fs1) \<Rightarrow>
                (let header = fileCacheCreateHeader (Some \<lparr>eol = Some eol'\<rparr>)
                 in case fs_write fs1 d header 0 HEADER_SIZE 0 of
                      Inl err2 \<Rightarrow> ([Inr (), Inl (SysError err2)], snd (fs_close fs1 d))
                    | Inr (numBytesWritten, fs2) \<Rightarrow>
                        if numBytesWritten \<noteq> HEADER_SIZE
                        then ([Inr (), Inl (E_BAD_WRITE numBytesWritten)], snd (fs_close fs2 d))
                        else
                          (case fs_close fs2 d of
                             (Some err, fs3) \<Rightarrow> ([Inr (), Inl (SysError err)], fs3)
                           | (None, fs3) \<Rightarrow> ([Inr (), Inr ()], fs3)))))"

section \<open>The scenario of the test suite\<close>

text \<open>
  The tests set the clock to 1267833600000 and store the bytes 1, 3, 3, 7 under the key
  \<open>plop\<close>. The numbers are written as their bit patterns: 1267833600000 is
  \<open>0x4272730C57800000\<close>, 1267833600001 is \<open>0x4272730C57801000\<close>, 1267833599999 is
  \<open>0x4272730C577FF000\<close>, 3600 is \<open>0x40AC200000000000\<close>, 1267833603600 is
  \<open>0x4272730C58610000\<close> and 12 is \<open>0x4028000000000000\<close>.
\<close>

definition twelve :: number where
  "twelve = 0x4028000000000000"


definition test_time :: number where
  "test_time = 0x4272730C57800000"

definition test_time_plus_1 :: number where
  "test_time_plus_1 = 0x4272730C57801000"

definition test_services :: services where
  "test_services =
     \<lparr>FS_CACHE_DIR = ''/tmp/__nodeFileCache'', FS_CACHE_TTL = 0x40AC200000000000,
      time = test_time, sanitize = (\<lambda>key. key)\<rparr>"

definition empty_fs :: filesystem where
  "empty_fs =
     \<lparr>files = Map.empty, denied = {}, fds = Map.empty, next_fd = 3, write_fault = WriteAll,
      second_runs_first = False, second_done_first = False\<rparr>"

definition empty_world :: world where
  "empty_world = \<lparr>fsys = empty_fs, lock_calls = []\<rparr>"

definition test_FileCache :: FileCache where
  "test_FileCache = \<lparr>dir = ''/tmp/__nodeFileCache/_'', clock = test_time, sanitizer = (\<lambda>key. key)\<rparr>"


definition test_time_plus_ttl :: number where
  "test_time_plus_ttl = 0x4272730C58610000"

definition test_time_minus_1 :: number where
  "test_time_minus_1 = 0x4272730C577FF000"

text \<open>The bucket of \<open>plop\<close>, valid until 1267833600001, as \<open>set\<close> stores it.\<close>

definition test_bucket :: buffer where
  "test_bucket = encodeHeader (Some \<lparr>eol = Some test_time_plus_1\<rparr>) @ [1, 3, 3, 7]"

definition bucket_world :: world where
  "bucket_world =
     \<lparr>fsys = empty_fs\<lparr>files := [keyToPath test_services ''plop'' \<mapsto> test_bucket]\<rparr>,
      lock_calls = []\<rparr>"

definition bucket_fs :: filesystem where
  "bucket_fs = empty_fs\<lparr>files := [fileCacheKeyToPath test_FileCache ''plop'' \<mapsto> test_bucket]\<rparr>"

text \<open>
  The same bucket on a file system where \<open>fs.write\<close> writes 5 bytes only, for each way
  two calls in flight may overtake one another.
\<close>

definition short_write_world :: "bool \<Rightarrow> bool \<Rightarrow> world" where
  "short_write_world runs_first done_first =
     bucket_world\<lparr>fsys := (fsys bucket_world)
       \<lparr>write_fault := WriteShort 5, second_runs_first := runs_first, second_done_first := done_first\<rparr>\<rparr>"

text \<open>A directory in which a temporary file of \<open>plop\<close> was left behind.\<close>

definition stale_tmp_world :: world where
  "stale_tmp_world =
     \<lparr>fsys = empty_fs\<lparr>files := [keyToPath test_services ''plop'' @ ''.tmp'' \<mapsto> []]\<rparr>,
      lock_calls = []\<rparr>"

definition stale_tmp_fs :: filesystem where
  "stale_tmp_fs =
     empty_fs\<lparr>files := [fileCacheKeyToPath test_FileCache ''plop'' @ ''.tmp'' \<mapsto> []]\<rparr>"

section \<open>Properties of the number model and of the header codec\<close>

lemma doubleLE_length [simp]: "length (doubleLE v) = 8"
  by (simp add: doubleLE_def)

lemma readLE_step:
  "(ucast (ucast (drop_bit (8 * k) d) :: byte) :: number)
     OR push_bit 8 (take_bit (8 * m) (drop_bit (8 * Suc k) d))
   = take_bit (8 * Suc m) (drop_bit (8 * k) d)"
  by (rule bit_word_eqI) (auto simp add: bit_simps)

lemma readLE_bytes:
  "foldr (\<lambda>b w. ucast b OR push_bit 8 w)
     (map (\<lambda>i. (ucast (drop_bit (8 * i) d) :: byte)) [k..<k + m]) (0::number)
   = take_bit (8 * m) (drop_bit (8 * k) d)"
proof (induction m arbitrary: k)
  case 0
  show ?case by simp
next
  case (Suc m)
  have "[k..<k + Suc m] = k # [Suc k..<Suc k + m]"
    by (simp add: upt_rec)
  then show ?case
    using Suc [of "Suc k"] readLE_step [of k d m] by simp
qed

lemma read_doubleLE: "foldr (\<lambda>b w. ucast b OR push_bit 8 w) (doubleLE d) (0::number) = d"
  using readLE_bytes [of d 0 8] by (simp add: doubleLE_def take_bit_word_eq_self)

lemma readDoubleLE_writeDoubleLE:
  "off \<le> length data \<Longrightarrow> readDoubleLE (writeDoubleLE data v off @ rest) off = v"
  by (simp add: readDoubleLE_def writeDoubleLE_def read_doubleLE)

lemma HEADER_SIZE_20: "HEADER_SIZE = 20"
  by (simp add: HEADER_SIZE_def HEADER_FLAG_def)

lemma replicate_8: "replicate 8 x = [x, x, x, x, x, x, x, x]"
  by (simp add: numeral_eq_Suc)

lemma encodeHeader_eq:
  "encodeHeader h =
     map charCodeAt0 ''BUCK''
     @ doubleLE (js_or (case h of None \<Rightarrow> None | Some x \<Rightarrow> eol x) 0)
     @ replicate 8 (charCodeAt0 CHR ''x'')"
  by (cases h)
    (simp_all add: encodeHeader_def writeDoubleLE_def HEADER_FLAG_def Let_def replicate_8)

lemma encodeHeader_length [simp]: "length (encodeHeader h) = HEADER_SIZE"
  by (simp add: encodeHeader_eq HEADER_SIZE_20)

lemma flag_check:
  "4 \<le> length data \<Longrightarrow>
   list_ex (\<lambda>(char, i). data ! i \<noteq> charCodeAt0 char) (zip HEADER_FLAG [0..<length HEADER_FLAG])
   \<longleftrightarrow> take 4 data \<noteq> map charCodeAt0 ''BUCK''"
proof -
  assume len: "4 \<le> length data"
  then obtain a b c d rest where data: "data = a # b # c # d # rest"
    by (cases data; cases "tl data"; cases "tl (tl data)"; cases "tl (tl (tl data))") auto
  have idx: "[0..<4] = [0, 1, 2, 3]"
    by (simp add: upt_rec)
  show ?thesis
    unfolding data HEADER_FLAG_def by (auto simp add: idx)
qed

lemma decodeHeader_encodeHeader:
  "decodeHeader (encodeHeader h @ payload)
   = Inr \<lparr>eol = Some (js_or (case h of None \<Rightarrow> None | Some x \<Rightarrow> eol x) 0)\<rparr>"
proof -
  let ?e = "js_or (case h of None \<Rightarrow> None | Some x \<Rightarrow> eol x) 0"
  have size: "\<not> HEADER_SIZE > length (encodeHeader h @ payload)"
    by simp
  have flag: "take 4 (encodeHeader h @ payload) = map charCodeAt0 ''BUCK''"
    by (simp add: encodeHeader_eq)
  have "4 \<le> length (encodeHeader h @ payload)"
    by (simp add: HEADER_SIZE_20)
  from flag_check [OF this] flag
  have ok: "\<not> list_ex (\<lambda>(char, i). (encodeHeader h @ payload) ! i \<noteq> charCodeAt0 char)
                (zip HEADER_FLAG [0..<length HEADER_FLAG])"
    by simp
  have "readDoubleLE (encodeHeader h @ payload) (length HEADER_FLAG) = ?e"
    by (simp add: encodeHeader_eq readDoubleLE_def HEADER_FLAG_def read_doubleLE)
  with size ok show ?thesis
    unfolding decodeHeader_def by simp
qed

lemma js_lt_asym: "js_lt a b \<Longrightarrow> \<not> js_lt b a"
  by (auto simp add: js_lt_def)

lemma isNaN_0 [simp]: "\<not> isNaN 0"
  by (simp add: isNaN_def dbl_exp_def)

lemma dbl_ord_0 [simp]: "dbl_ord 0 = 0"
  by (simp add: dbl_ord_def dbl_mag_def)

lemma dbl_ord_zero: "dbl_mag e = 0 \<Longrightarrow> dbl_ord e = 0"
  by (simp add: dbl_ord_def)

lemma js_or_zero_lt: "\<not> isNaN e \<Longrightarrow> js_lt (js_or (Some e) 0) x = js_lt e x"
  by (auto simp add: js_or_def js_lt_def js_falsy_def dbl_ord_zero)

lemma js_or_zero_eq: "\<not> isNaN e \<Longrightarrow> js_eq (js_or (Some e) 0) e"
  by (auto simp add: js_or_def js_eq_def js_falsy_def dbl_ord_zero)

lemma js_lt_not_NaN: "js_lt a b \<Longrightarrow> \<not> isNaN a \<and> \<not> isNaN b"
  by (simp add: js_lt_def)

lemma fileCacheCreateHeader_eq: "fileCacheCreateHeader h = encodeHeader h"
  by (simp add: fileCacheCreateHeader_def encodeHeader_def)

lemma fileCacheReadHeader_eq: "fileCacheReadHeader data = decodeHeader data"
  by (simp add: fileCacheReadHeader_def decodeHeader_def)

lemma concat_chunksOf: "0 < n \<Longrightarrow> concat (chunksOf n data) = data"
proof (induction n data rule: chunksOf.induct)
  case (1 n data)
  show ?case
  proof (cases "data = []")
    case True
    then show ?thesis by (simp add: chunksOf.simps)
  next
    case False
    with 1 have "concat (chunksOf n (drop n data)) = drop n data"
      by simp
    with False 1(2) show ?thesis
      by (subst chunksOf.simps) simp
  qed
qed

lemma firstChunk_split:
  "firstChunk n acc source = (chunk, rest) \<Longrightarrow> length acc \<le> n \<Longrightarrow>
   chunk = take n (acc @ concat source) \<and> concat rest = drop n (acc @ concat source)"
proof (induction n acc source arbitrary: chunk rest rule: firstChunk.induct)
  case (1 n acc)
  then show ?case by simp
next
  case (2 n acc c cs)
  show ?case
  proof (cases "length c < n - length acc")
    case True
    with 2 show ?thesis by simp
  next
    case False
    with 2(2,3) show ?thesis
      by (auto split: if_splits)
  qed
qed

lemma tmp_neq [simp]: "dest @ ''.tmp'' \<noteq> dest" "dest \<noteq> dest @ ''.tmp''"
  by simp_all

lemma get_bucket:
  assumes "files (fsys w) (keyToPath sv key) = Some (encodeHeader h @ payload)"
    and "keyToPath sv key \<notin> denied (fsys w)"
  shows "get sv w key =
     (let e = js_or (case h of None \<Rightarrow> None | Some x \<Rightarrow> eol x) 0
      in if js_lt e (time sv) then (Inl (E_END_OF_LIFE (Some e)), w) else (Inr payload, w))"
  using assms
  by (simp add: get_def fs_readFile_def decodeHeader_encodeHeader js_less_def Let_def)

lemma firstChunk_bucket:
  assumes "firstChunk HEADER_SIZE [] (chunksOf highWaterMark (encodeHeader h @ payload)) = (chunk, rest)"
  shows "chunk = encodeHeader h \<and> concat rest = payload"
proof -
  have "concat (chunksOf highWaterMark (encodeHeader h @ payload)) = encodeHeader h @ payload"
    by (rule concat_chunksOf) (simp add: highWaterMark_def)
  with firstChunk_split [OF assms] show ?thesis
    by simp
qed

lemma getStream_bucket:
  assumes "files (fsys w) (keyToPath sv key) = Some (encodeHeader h @ payload)"
    and "keyToPath sv key \<notin> denied (fsys w)"
  shows "\<exists>rest. concat rest = payload \<and> getStream sv w key =
     (let e = js_or (case h of None \<Rightarrow> None | Some x \<Rightarrow> eol x) 0
      in if js_lt e (time sv) then (Inl (E_END_OF_LIFE (Some e)), w) else (Inr ([] # rest), w))"
proof -
  obtain chunk rest where fc:
    "firstChunk HEADER_SIZE [] (chunksOf highWaterMark (encodeHeader h @ payload)) = (chunk, rest)"
    by (cases "firstChunk HEADER_SIZE [] (chunksOf highWaterMark (encodeHeader h @ payload))")
  from firstChunk_bucket [OF fc] have chunk: "chunk = encodeHeader h" and rest: "concat rest = payload"
    by simp_all
  have "decodeHeader chunk = Inr \<lparr>eol = Some (js_or (case h of None \<Rightarrow> None | Some x \<Rightarrow> eol x) 0)\<rparr>"
    using decodeHeader_encodeHeader [of h "[]"] chunk by simp
  with assms fc rest show ?thesis
    by (auto simp add: getStream_def fs_createReadStream_def onFirstChunk_def js_less_def Let_def)
qed

lemma fileCacheGet_bucket:
  assumes "files fs (fileCacheKeyToPath this key) = Some (encodeHeader h @ payload)"
    and "fileCacheKeyToPath this key \<notin> denied fs"
  shows "fileCacheGet this fs key =
     (let e = js_or (case h of None \<Rightarrow> None | Some x \<Rightarrow> eol x) 0
      in if js_lt e (clock this) then [Inl (E_END_OF_LIFE (Some e))] else [Inr payload])"
  using assms
  by (simp add: fileCacheGet_def fs_readFile_def fileCacheReadHeader_eq decodeHeader_encodeHeader
      js_less_def Let_def)

lemma fileCacheGetStream_bucket:
  assumes "files fs (fileCacheKeyToPath this key) = Some (encodeHeader h @ payload)"
    and "fileCacheKeyToPath this key \<notin> denied fs"
  shows "\<exists>rest. concat rest = payload \<and> fileCacheGetStream this fs key =
     (let e = js_or (case h of None \<Rightarrow> None | Some x \<Rightarrow> eol x) 0
      in if js_lt e (clock this) then [Inl (E_END_OF_LIFE (Some e))] else [Inr ([] # rest)])"
proof -
  obtain chunk rest where fc:
    "firstChunk HEADER_SIZE [] (chunksOf highWaterMark (encodeHeader h @ payload)) = (chunk, rest)"
    by (cases "firstChunk HEADER_SIZE [] (chunksOf highWaterMark (encodeHeader h @ payload))")
  from firstChunk_bucket [OF fc] have chunk: "chunk = encodeHeader h" and rest: "concat rest = payload"
    by simp_all
  have "decodeHeader chunk = Inr \<lparr>eol = Some (js_or (case h of None \<Rightarrow> None | Some x \<Rightarrow> eol x) 0)\<rparr>"
    using decodeHeader_encodeHeader [of h "[]"] chunk by simp
  with assms fc rest show ?thesis
    by (auto simp add: fileCacheGetStream_def fs_createReadStream_def fileCacheOnFirstChunk_def
        fileCacheReadHeader_eq js_less_def Let_def)
qed

lemma fs_rename_ok:
  "fs_rename fs old new = Inr fs' \<Longrightarrow> old \<noteq> new \<Longrightarrow>
   files fs' new = files fs old \<and> files fs old \<noteq> None \<and> files fs' old = None
   \<and> new \<notin> denied fs \<and> old \<notin> denied fs \<and> denied fs' = denied fs
   \<and> (\<forall>p. p \<noteq> old \<and> p \<noteq> new \<longrightarrow> files fs' p = files fs p)"
  by (auto simp add: fs_rename_def split: if_splits option.splits)

lemma set_publish_ok:
  assumes "set_publish fs key dest header data = (Inr (), fs')"
  shows "files fs' dest = Some (header @ data) \<and> dest \<notin> denied fs'
    \<and> files fs' (dest @ ''.tmp'') = None"
proof -
  from assms obtain fs1 fs2 where
    w: "fs_writeFile fs (dest @ ''.tmp'') (header @ data) \<lparr>flag = None, flags = Some ''wx''\<rparr> = Inr fs1"
    and u: "fs2 = (case fs_unlink fs1 dest of Inl err \<Rightarrow> fs1 | Inr f \<Rightarrow> f)"
    and r: "fs_rename fs2 (dest @ ''.tmp'') dest = Inr fs'"
    by (auto simp add: set_publish_def Let_def split: sum.splits)
  from w have f1: "files fs1 (dest @ ''.tmp'') = Some (header @ data)"
    by (auto simp add: fs_writeFile_def open_for_write_def split: if_splits)
  from u f1 have f2: "files fs2 (dest @ ''.tmp'') = Some (header @ data)"
    by (auto simp add: fs_unlink_def split: if_splits sum.splits)
  from fs_rename_ok [OF r] f2 show ?thesis
    by auto
qed

lemma pipe_to_files:
  "files fs p = Some d \<Longrightarrow>
   files (pipe_to p fs source) = (files fs)(p \<mapsto> d @ concat source)
   \<and> denied (pipe_to p fs source) = denied fs"
proof (induction source arbitrary: fs d)
  case Nil
  then show ?case by (auto simp add: pipe_to_def)
next
  case (Cons c cs)
  have "files (ws_write p fs c) p = Some (d @ c)"
    using Cons.prems by (simp add: ws_write_def)
  from Cons.IH [OF this] Cons.prems show ?case
    by (auto simp add: pipe_to_def ws_write_def fun_eq_iff)
qed

lemma setStream_publish_ok:
  assumes "setStream_publish fs key dest header stream = (Inr (), fs')"
  shows "files fs' dest = Some (header @ concat stream) \<and> dest \<notin> denied fs'
    \<and> files fs' (dest @ ''.tmp'') = None"
proof -
  from assms obtain fs1 where
    o: "fs_createWriteStream fs (dest @ ''.tmp'') \<lparr>flag = None, flags = Some ''wx''\<rparr> = Inr fs1"
    and r: "fs_rename (pipe_to (dest @ ''.tmp'') (ws_write (dest @ ''.tmp'') fs1 header) stream)
              (dest @ ''.tmp'') dest = Inr fs'"
    by (auto simp add: setStream_publish_def Let_def split: sum.splits)
  from o have "files fs1 (dest @ ''.tmp'') = Some []"
    by (auto simp add: fs_createWriteStream_def open_for_write_def split: if_splits)
  then have "files (ws_write (dest @ ''.tmp'') fs1 header) (dest @ ''.tmp'') = Some header"
    by (simp add: ws_write_def)
  from pipe_to_files [OF this, of stream] fs_rename_ok [OF r] show ?thesis
    by (auto simp add: ws_write_def)
qed

lemma set_fc_ok:
  assumes "set_fc sv w key payload (Some e) = (Inr (), w')"
  shows "files (fsys w') (keyToPath sv key) = Some (encodeHeader (Some \<lparr>eol = Some e\<rparr>) @ payload)
     \<and> keyToPath sv key \<notin> denied (fsys w')"
proof -
  from assms obtain fs' where
    "set_publish (fsys (lock_take w key)) key (keyToPath sv key)
       (encodeHeader (Some \<lparr>eol = Some e\<rparr>)) payload = (Inr (), fs')"
    and "fsys w' = fs'"
    by (auto simp add: set_fc_def eol_param_def Let_def lock_release_def
        split: if_splits prod.splits sum.splits)
  with set_publish_ok show ?thesis
    by blast
qed

lemma setStream_ok:
  assumes "setStream sv w key stream (Some e) = (Inr (), w')"
  shows "files (fsys w') (keyToPath sv key)
       = Some (encodeHeader (Some \<lparr>eol = Some e\<rparr>) @ concat stream)
     \<and> keyToPath sv key \<notin> denied (fsys w')"
proof -
  from assms obtain fs' where
    "setStream_publish (fsys (lock_take w key)) key (keyToPath sv key)
       (encodeHeader (Some \<lparr>eol = Some e\<rparr>)) stream = (Inr (), fs')"
    and "fsys w' = fs'"
    by (auto simp add: setStream_def eol_param_def Let_def lock_release_def
        split: if_splits prod.splits sum.splits)
  with setStream_publish_ok show ?thesis
    by blast
qed

lemma read_fc_fresh:
  assumes bucket: "files (fsys w) (keyToPath sv key) = Some (encodeHeader (Some \<lparr>eol = Some e\<rparr>) @ payload)"
    and ok: "keyToPath sv key \<notin> denied (fsys w)"
    and before: "js_lt now e"
  shows "get (sv\<lparr>time := now\<rparr>) w key = (Inr payload, w)
     \<and> (\<exists>cs. getStream (sv\<lparr>time := now\<rparr>) w key = (Inr cs, w) \<and> concat cs = payload)"
proof -
  have path: "keyToPath (sv\<lparr>time := now\<rparr>) key = keyToPath sv key"
    by (simp add: keyToPath_def)
  from before have "\<not> isNaN e" and "\<not> js_lt e now"
    by (simp_all add: js_lt_not_NaN js_lt_asym)
  then have fresh: "\<not> js_lt (js_or (Some e) 0) now"
    by (simp add: js_or_zero_lt)
  from bucket ok path
  have "get (sv\<lparr>time := now\<rparr>) w key = (Inr payload, w)"
    using get_bucket [of w "sv\<lparr>time := now\<rparr>" key "Some \<lparr>eol = Some e\<rparr>" payload] fresh
    by simp
  moreover from bucket ok path
  have "\<exists>cs. getStream (sv\<lparr>time := now\<rparr>) w key = (Inr cs, w) \<and> concat cs = payload"
    using getStream_bucket [of w "sv\<lparr>time := now\<rparr>" key "Some \<lparr>eol = Some e\<rparr>" payload] fresh
    by auto
  ultimately show ?thesis
    by simp
qed

lemma HEADER_FLAG_length: "length HEADER_FLAG = 4"
  by (simp add: HEADER_FLAG_def)

lemma doubleLE_twelve: "doubleLE twelve = [0, 0, 0, 0, 0, 0, 40, 64]"
  by (simp add: doubleLE_def twelve_def upt_rec)

lemma not_falsy_twelve: "\<not> isNaN twelve" "dbl_mag twelve \<noteq> 0"
  by (simp_all add: isNaN_def dbl_exp_def dbl_frac_def dbl_mag_def twelve_def)

lemma encodeHeader_twelve:
  "encodeHeader (Some \<lparr>eol = Some twelve\<rparr>)
   = [66, 85, 67, 75, 0, 0, 0, 0, 0, 0, 40, 64, 120, 120, 120, 120, 120, 120, 120, 120]"
  by (simp add: encodeHeader_eq js_or_def js_falsy_def not_falsy_twelve doubleLE_twelve
      charCodeAt0_def replicate_8)

section \<open>The header codec\<close>

text \<open>
  C5, as stated, fails: the encoded header of the test suite's example is not 24 bytes
  long. \<open>HEADER_SIZE\<close> is \<open>HEADER_FLAG.length + 16\<close>, that is 20, and the literal
  \<open>BUCKxxxxxxxxxxxxxxxx\<close> has 20 characters.
\<close>

theorem header_size_counterexample:
  "length (encodeHeader (Some \<lparr>eol = Some twelve\<rparr>)) \<noteq> 24"
  by (simp add: HEADER_SIZE_20)

text \<open>
  C5, amended: the encoded header is a fixed block of 20 bytes: the 4 bytes of the ASCII tag
  \<open>BUCK\<close> at offset 0, \<open>eol\<close> (0 when it is missing or falsy) as a little-endian
  double at offset 4, and the 8 remaining bytes equal to the code of \<open>x\<close>. The encoders
  of both versions agree, and the size the decoders require is the length the encoder
  produces: one constant, \<open>HEADER_SIZE\<close>, for writing and for reading.
\<close>

theorem header_layout:
  "HEADER_SIZE = 20
   \<and> length (encodeHeader h) = HEADER_SIZE
   \<and> take 4 (encodeHeader h) = map charCodeAt0 ''BUCK''
   \<and> take 8 (drop 4 (encodeHeader h))
       = doubleLE (js_or (case h of None \<Rightarrow> None | Some x \<Rightarrow> eol x) 0)
   \<and> drop 12 (encodeHeader h) = replicate 8 (charCodeAt0 CHR ''x'')
   \<and> fileCacheCreateHeader h = encodeHeader h
   \<and> ((\<exists>n. decodeHeader data = Inl (E_BAD_HEADER_SIZE n)) = (length data < length (encodeHeader h)))
   \<and> ((\<exists>n. fileCacheReadHeader data = Inl (E_BAD_HEADER_SIZE n)) = (length data < length (encodeHeader h)))"
proof -
  have "(\<exists>n. decodeHeader data = Inl (E_BAD_HEADER_SIZE n)) = (length data < HEADER_SIZE)"
    by (auto simp add: decodeHeader_def)
  then show ?thesis
    by (simp add: HEADER_SIZE_20 encodeHeader_eq fileCacheCreateHeader_eq fileCacheReadHeader_eq)
qed

lemma decodeHeader_cases:
  "decodeHeader b =
     (if length b < HEADER_SIZE then Inl (E_BAD_HEADER_SIZE (length b))
      else if take 4 b \<noteq> map charCodeAt0 ''BUCK'' then Inl (E_BAD_HEADER_FMT b)
      else Inr \<lparr>eol = Some (readDoubleLE b 4)\<rparr>)"
proof (cases "length b < HEADER_SIZE")
  case True
  then show ?thesis
    by (simp add: decodeHeader_def)
next
  case False
  then have "4 \<le> length b"
    by (simp add: HEADER_SIZE_20)
  from flag_check [OF this] False show ?thesis
    by (simp add: decodeHeader_def HEADER_FLAG_length)
qed

text \<open>
  C6: \<open>decodeHeader b\<close> fails with \<open>E_BAD_HEADER_SIZE\<close> exactly when \<open>b\<close> is
  shorter than \<open>HEADER_SIZE\<close>; it fails with \<open>E_BAD_HEADER_FMT\<close> exactly when
  \<open>b\<close> is long enough and its first 4 bytes are not the tag; otherwise it returns the
  little-endian double read at offset 4. It fails in no other way, and for a buffer that
  is long enough the outcome (the header, or the code of the error) is that of its first
  \<open>HEADER_SIZE\<close> bytes. The decoder of the callback version is the same function.
\<close>

theorem decodeHeader_failure_modes:
  "((decodeHeader b = Inl (E_BAD_HEADER_SIZE (length b))) = (length b < HEADER_SIZE))
   \<and> ((decodeHeader b = Inl (E_BAD_HEADER_FMT b))
        = (HEADER_SIZE \<le> length b \<and> take 4 b \<noteq> map charCodeAt0 HEADER_FLAG))
   \<and> (HEADER_SIZE \<le> length b \<and> take 4 b = map charCodeAt0 HEADER_FLAG
        \<longrightarrow> decodeHeader b = Inr \<lparr>eol = Some (readDoubleLE b 4)\<rparr>)
   \<and> (\<forall>e. decodeHeader b = Inl e \<longrightarrow> e = E_BAD_HEADER_SIZE (length b) \<or> e = E_BAD_HEADER_FMT b)
   \<and> (HEADER_SIZE \<le> length b
        \<longrightarrow> map_sum err_code id (decodeHeader (take HEADER_SIZE b))
            = map_sum err_code id (decodeHeader b))
   \<and> fileCacheReadHeader b = decodeHeader b"
proof -
  have flag: "map charCodeAt0 HEADER_FLAG = map charCodeAt0 ''BUCK''"
    by (simp only: HEADER_FLAG_def)
  have tk: "take (min 4 HEADER_SIZE) b = take 4 b"
    by (simp add: HEADER_SIZE_20)
  have rd: "readDoubleLE (take HEADER_SIZE b) 4 = readDoubleLE b 4"
    by (simp add: readDoubleLE_def HEADER_SIZE_20 drop_take)
  have "HEADER_SIZE \<le> length b
        \<longrightarrow> map_sum err_code id (decodeHeader (take HEADER_SIZE b))
            = map_sum err_code id (decodeHeader b)"
    by (simp add: decodeHeader_cases tk rd)
  then show ?thesis
    unfolding flag by (simp add: decodeHeader_cases [of b] fileCacheReadHeader_eq)
qed

theorem decodeHeader_failure_modes_witness:
  "HEADER_SIZE \<le> length (encodeHeader (Some \<lparr>eol = Some twelve\<rparr>))
   \<and> take 4 (encodeHeader (Some \<lparr>eol = Some twelve\<rparr>)) = map charCodeAt0 HEADER_FLAG
   \<and> decodeHeader [66, 85, 67, 75, 0, 0, 0, 0, 0, 0, 40, 64, 120, 120, 120, 120, 120, 120, 120, 120]
       = Inr \<lparr>eol = Some twelve\<rparr>
   \<and> decodeHeader [66, 85, 67] = Inl (E_BAD_HEADER_SIZE 3)
   \<and> decodeHeader [66, 85, 67, 76, 0, 0, 0, 0, 0, 0, 40, 64, 120, 120, 120, 120, 120, 120, 120, 120]
       = Inl (E_BAD_HEADER_FMT
           [66, 85, 67, 76, 0, 0, 0, 0, 0, 0, 40, 64, 120, 120, 120, 120, 120, 120, 120, 120])"
proof -
  let ?b = "encodeHeader (Some \<lparr>eol = Some twelve\<rparr>)"
  have h: "HEADER_SIZE \<le> length ?b \<and> take 4 ?b = map charCodeAt0 HEADER_FLAG"
    by (simp add: encodeHeader_eq HEADER_FLAG_def HEADER_SIZE_20)
  have r: "readDoubleLE ?b 4 = twelve"
    by (simp add: encodeHeader_eq readDoubleLE_def read_doubleLE js_or_def js_falsy_def not_falsy_twelve)
  have flag: "map charCodeAt0 HEADER_FLAG = map charCodeAt0 ''BUCK''"
    by (simp only: HEADER_FLAG_def)
  have s: "length [66, 85, 67 :: byte] < HEADER_SIZE"
    by (simp add: HEADER_SIZE_20)
  let ?bad = "[66, 85, 67, 76, 0, 0, 0, 0, 0, 0, 40, 64, 120, 120, 120, 120, 120, 120, 120, 120] :: buffer"
  have f: "HEADER_SIZE \<le> length ?bad \<and> take 4 ?bad \<noteq> map charCodeAt0 HEADER_FLAG"
    by (simp add: HEADER_SIZE_20 HEADER_FLAG_def charCodeAt0_def)
  from h r s f show ?thesis
    using decodeHeader_failure_modes [of ?b] decodeHeader_failure_modes [of "[66, 85, 67]"]
      decodeHeader_failure_modes [of ?bad]
    by (simp add: encodeHeader_twelve)
qed

text \<open>
  C7: for every \<open>eol\<close> that is not NaN (so for 0, for 12 and for every large finite
  value), decoding the encoded header succeeds with an \<open>eol\<close> equal to the input: the
  same number, bit for bit, except that the negative zero comes back as 0.
\<close>

theorem header_round_trip:
  "\<not> isNaN e \<Longrightarrow>
   \<exists>e'. decodeHeader (encodeHeader (Some \<lparr>eol = Some e\<rparr>)) = Inr \<lparr>eol = Some e'\<rparr>
     \<and> js_eq e' e \<and> (dbl_mag e \<noteq> 0 \<longrightarrow> e' = e) \<and> (e = 0 \<longrightarrow> e' = 0)"
proof -
  assume e: "\<not> isNaN e"
  have "decodeHeader (encodeHeader (Some \<lparr>eol = Some e\<rparr>)) = Inr \<lparr>eol = Some (js_or (Some e) 0)\<rparr>"
    using decodeHeader_encodeHeader [of "Some \<lparr>eol = Some e\<rparr>" "[]"] by simp
  moreover have "js_eq (js_or (Some e) 0) e"
    using e by (rule js_or_zero_eq)
  moreover have "dbl_mag e \<noteq> 0 \<longrightarrow> js_or (Some e) 0 = e"
    using e by (simp add: js_or_def js_falsy_def)
  moreover have "e = 0 \<longrightarrow> js_or (Some e) 0 = 0"
    by (simp add: js_or_def)
  ultimately show ?thesis
    by blast
qed

theorem header_round_trip_witness:
  "\<not> isNaN twelve \<and> \<not> isNaN 0 \<and> \<not> isNaN test_time
   \<and> decodeHeader (encodeHeader (Some \<lparr>eol = Some twelve\<rparr>)) = Inr \<lparr>eol = Some twelve\<rparr>
   \<and> decodeHeader (encodeHeader (Some \<lparr>eol = Some 0\<rparr>)) = Inr \<lparr>eol = Some 0\<rparr>
   \<and> decodeHeader (encodeHeader (Some \<lparr>eol = Some test_time\<rparr>)) = Inr \<lparr>eol = Some test_time\<rparr>"
proof -
  have n: "\<not> isNaN test_time" "dbl_mag test_time \<noteq> 0"
    by (simp_all add: isNaN_def dbl_exp_def dbl_frac_def dbl_mag_def test_time_def)
  from n not_falsy_twelve show ?thesis
    using header_round_trip [of twelve] header_round_trip [of 0] header_round_trip [of test_time]
    by auto
qed

section \<open>Reading back what was stored\<close>

lemma fileCacheSet_ok:
  assumes "fileCacheSet this fs key payload (Some e) = ([Inr ()], fs')"
  shows "files fs' (fileCacheKeyToPath this key)
       = Some (encodeHeader (Some \<lparr>eol = Some e\<rparr>) @ payload)
     \<and> fileCacheKeyToPath this key \<notin> denied fs'"
proof -
  let ?dest = "fileCacheKeyToPath this key"
  let ?header = "encodeHeader (Some \<lparr>eol = Some e\<rparr>)"
  from assms obtain fs1 fs2 where
    w: "fs_writeFile fs (?dest @ ''.tmp'') (?header @ payload) \<lparr>flag = None, flags = Some ''wx''\<rparr> = Inr fs1"
    and u: "fs2 = (case fs_unlink fs1 ?dest of Inl err \<Rightarrow> fs1 | Inr f \<Rightarrow> f)"
    and r: "fs_rename fs2 (?dest @ ''.tmp'') ?dest = Inr fs'"
    by (auto simp add: fileCacheSet_def fileCacheCreateHeader_eq Let_def split: if_splits sum.splits)
  from w have f1: "files fs1 (?dest @ ''.tmp'') = Some (?header @ payload)"
    by (auto simp add: fs_writeFile_def open_for_write_def split: if_splits)
  from u f1 have f2: "files fs2 (?dest @ ''.tmp'') = Some (?header @ payload)"
    by (auto simp add: fs_unlink_def split: if_splits sum.splits)
  from fs_rename_ok [OF r] f2 show ?thesis
    by auto
qed

lemma fileCacheSetStream_ok:
  assumes "fileCacheSetStream this fs key stream (Some e) = ([Inr ()], [], fs')"
  shows "files fs' (fileCacheKeyToPath this key)
       = Some (encodeHeader (Some \<lparr>eol = Some e\<rparr>) @ concat stream)
     \<and> fileCacheKeyToPath this key \<notin> denied fs'"
proof -
  let ?dest = "fileCacheKeyToPath this key"
  let ?header = "encodeHeader (Some \<lparr>eol = Some e\<rparr>)"
  from assms obtain fs1 where
    o: "fs_createWriteStream fs (?dest @ ''.tmp'') \<lparr>flag = None, flags = Some ''wx''\<rparr> = Inr fs1"
    and r: "fs_rename (pipe_to (?dest @ ''.tmp'') (ws_write (?dest @ ''.tmp'') fs1 ?header) stream)
              (?dest @ ''.tmp'') ?dest = Inr fs'"
    by (auto simp add: fileCacheSetStream_def fileCacheCreateHeader_eq Let_def
        split: if_splits sum.splits)
  from o have "files fs1 (?dest @ ''.tmp'') = Some []"
    by (auto simp add: fs_createWriteStream_def open_for_write_def split: if_splits)
  then have "files (ws_write (?dest @ ''.tmp'') fs1 ?header) (?dest @ ''.tmp'') = Some ?header"
    by (simp add: ws_write_def)
  from pipe_to_files [OF this, of stream] fs_rename_ok [OF r] show ?thesis
    by (auto simp add: ws_write_def)
qed

lemma read_FileCache_fresh:
  assumes bucket: "files fs (fileCacheKeyToPath this key)
       = Some (encodeHeader (Some \<lparr>eol = Some e\<rparr>) @ payload)"
    and ok: "fileCacheKeyToPath this key \<notin> denied fs"
    and before: "js_lt now e"
  shows "fileCacheGet (this\<lparr>clock := now\<rparr>) fs key = [Inr payload]
     \<and> (\<exists>cs. fileCacheGetStream (this\<lparr>clock := now\<rparr>) fs key = [Inr cs] \<and> concat cs = payload)"
proof -
  have path: "fileCacheKeyToPath (this\<lparr>clock := now\<rparr>) key = fileCacheKeyToPath this key"
    by (simp add: fileCacheKeyToPath_def)
  from before have "\<not> isNaN e" and "\<not> js_lt e now"
    by (simp_all add: js_lt_not_NaN js_lt_asym)
  then have fresh: "\<not> js_lt (js_or (Some e) 0) now"
    by (simp add: js_or_zero_lt)
  from bucket ok path
  have "fileCacheGet (this\<lparr>clock := now\<rparr>) fs key = [Inr payload]"
    using fileCacheGet_bucket [of fs "this\<lparr>clock := now\<rparr>" key "Some \<lparr>eol = Some e\<rparr>" payload] fresh
    by simp
  moreover from bucket ok path
  have "\<exists>cs. fileCacheGetStream (this\<lparr>clock := now\<rparr>) fs key = [Inr cs] \<and> concat cs = payload"
    using fileCacheGetStream_bucket [of fs "this\<lparr>clock := now\<rparr>" key "Some \<lparr>eol = Some e\<rparr>" payload]
      fresh
    by auto
  ultimately show ?thesis
    by simp
qed

lemmas fs_defs = fs_readFile_def fs_writeFile_def open_for_write_def fs_unlink_def fs_rename_def
  fs_open_def fs_write_def fs_close_def fs_createReadStream_def fs_createWriteStream_def
  ws_write_def pipe_to_def

lemmas scenario_defs = test_services_def empty_world_def empty_fs_def test_FileCache_def
  keyToPath_def fileCacheKeyToPath_def path_join_def lock_take_def lock_release_def

lemma set_publish_succeeds:
  assumes "dest \<notin> denied fs" and "dest @ ''.tmp'' \<notin> denied fs"
  shows "fst (set_publish fs key dest header data) = Inr ()"
  using assms
  by (auto simp add: set_publish_def fs_defs Let_def split: sum.splits)

lemma setStream_publish_succeeds:
  assumes "dest \<notin> denied fs" and "dest @ ''.tmp'' \<notin> denied fs"
    and "files fs (dest @ ''.tmp'') = None"
  shows "fst (setStream_publish fs key dest header stream) = Inr ()"
proof -
  let ?tmp = "dest @ ''.tmp''"
  let ?fs1 = "fs\<lparr>files := (files fs)(?tmp \<mapsto> [])\<rparr>"
  have o: "fs_createWriteStream fs ?tmp \<lparr>flag = None, flags = Some ''wx''\<rparr> = Inr ?fs1"
    using assms by (simp add: fs_createWriteStream_def open_for_write_def)
  have "files (ws_write ?tmp ?fs1 header) ?tmp = Some header"
    by (simp add: ws_write_def)
  from pipe_to_files [OF this, of stream] assms(1,2)
  have "fst (case fs_rename (pipe_to ?tmp (ws_write ?tmp ?fs1 header) stream) ?tmp dest of
          Inl err \<Rightarrow> (Inl (SysError err), pipe_to ?tmp (ws_write ?tmp ?fs1 header) stream)
        | Inr fs3 \<Rightarrow> (Inr (), fs3)) = Inr ()"
    by (simp add: fs_rename_def ws_write_def)
  with o show ?thesis
    by (simp add: setStream_publish_def Let_def)
qed

lemma set_fc_succeeds:
  assumes "\<not> js_lt e (time sv)"
    and "keyToPath sv key \<notin> denied (fsys w)" and "keyToPath sv key @ ''.tmp'' \<notin> denied (fsys w)"
  shows "fst (set_fc sv w key payload (Some e)) = Inr ()"
proof -
  have "fst (set_publish (fsys (lock_take w key)) key (keyToPath sv key)
      (encodeHeader (Some \<lparr>eol = Some e\<rparr>)) payload) = Inr ()"
    using assms(2,3) by (simp add: set_publish_succeeds lock_take_def)
  with assms(1) show ?thesis
    by (cases "set_publish (fsys (lock_take w key)) key (keyToPath sv key)
        (encodeHeader (Some \<lparr>eol = Some e\<rparr>)) payload")
      (simp add: set_fc_def eol_param_def Let_def)
qed

lemma MAX_EOL_positive: "\<not> isNaN MAX_EOL" "0 < dbl_ord MAX_EOL"
  by (simp_all add: isNaN_def dbl_exp_def dbl_frac_def dbl_ord_def dbl_neg_def dbl_mag_def
      MAX_EOL_def)

lemma js_or_MAX_EOL_later:
  assumes "\<not> js_lt e now" and "\<not> isNaN e"
  shows "\<not> js_lt (js_or (Some e) MAX_EOL) now"
proof (cases "js_falsy e")
  case True
  with assms(2) have "dbl_ord e = 0"
    by (simp add: js_falsy_def dbl_ord_zero)
  with assms MAX_EOL_positive True show ?thesis
    by (auto simp add: js_or_def js_lt_def)
next
  case False
  with assms(1) show ?thesis
    by (simp add: js_or_def)
qed

lemma setStream_succeeds:
  assumes "\<not> js_lt e (time sv)" and "\<not> isNaN e"
    and "keyToPath sv key \<notin> denied (fsys w)" and "keyToPath sv key @ ''.tmp'' \<notin> denied (fsys w)"
    and "files (fsys w) (keyToPath sv key @ ''.tmp'') = None"
  shows "fst (setStream sv w key stream (Some e)) = Inr ()"
proof -
  have "fst (setStream_publish (fsys (lock_take w key)) key (keyToPath sv key)
      (encodeHeader (Some \<lparr>eol = Some e\<rparr>)) stream) = Inr ()"
    using assms(3,4,5) by (simp add: setStream_publish_succeeds lock_take_def)
  with js_or_MAX_EOL_later [OF assms(1,2)] show ?thesis
    by (cases "setStream_publish (fsys (lock_take w key)) key (keyToPath sv key)
        (encodeHeader (Some \<lparr>eol = Some e\<rparr>)) stream")
      (simp add: setStream_def eol_param_def Let_def)
qed

lemma fileCacheSet_succeeds:
  assumes "\<not> js_lt e (clock this)"
    and "fileCacheKeyToPath this key \<notin> denied fs"
    and "fileCacheKeyToPath this key @ ''.tmp'' \<notin> denied fs"
  shows "fst (fileCacheSet this fs key payload (Some e)) = [Inr ()]"
  using assms
  by (auto simp add: fileCacheSet_def js_less_def fs_defs Let_def split: sum.splits)

lemma fileCacheSetStream_succeeds:
  assumes "\<not> js_lt e (clock this)" and "\<not> isNaN e"
    and "fileCacheKeyToPath this key \<notin> denied fs"
    and "fileCacheKeyToPath this key @ ''.tmp'' \<notin> denied fs"
    and "files fs (fileCacheKeyToPath this key @ ''.tmp'') = None"
  shows "fst (fileCacheSetStream this fs key stream (Some e)) = [Inr ()]"
proof -
  let ?dest = "fileCacheKeyToPath this key"
  let ?tmp = "?dest @ ''.tmp''"
  let ?header = "fileCacheCreateHeader (Some \<lparr>eol = Some e\<rparr>)"
  let ?fs1 = "fs\<lparr>files := (files fs)(?tmp \<mapsto> [])\<rparr>"
  have o: "fs_createWriteStream fs ?tmp \<lparr>flag = None, flags = Some ''wx''\<rparr> = Inr ?fs1"
    using assms by (simp add: fs_createWriteStream_def open_for_write_def)
  have "files (ws_write ?tmp ?fs1 ?header) ?tmp = Some ?header"
    by (simp add: ws_write_def)
  from pipe_to_files [OF this, of stream] assms(3,4)
  have "\<exists>fs3. fs_rename (pipe_to ?tmp (ws_write ?tmp ?fs1 ?header) stream) ?tmp ?dest = Inr fs3"
    by (simp add: fs_rename_def ws_write_def)
  with o js_or_MAX_EOL_later [OF assms(1,2)] show ?thesis
    by (auto simp add: fileCacheSetStream_def Let_def)
qed

text \<open>
  C1: for every key, every payload and every \<open>eol\<close> later than the clock, once
  \<open>set\<close> has stored the payload, or \<open>setStream\<close> the chunks of a stream, a
  \<open>get\<close> of the same key at a time before \<open>eol\<close> returns exactly the payload (for
  a stream, the concatenation of its chunks), and \<open>getStream\<close> delivers a stream whose
  chunks concatenate to it: no byte of the header reaches the caller. The store does
  succeed when the file system does not refuse the bucket's path and its temporary path
  (and, for \<open>setStream\<close>, no temporary file is in the way). This holds for the
  promise-based service and for the callback-based \<open>FileCache\<close>.
\<close>

theorem transport_round_trip:
  assumes "js_lt (time sv) e" and "js_lt (clock this) e" and "js_lt now e"
  shows
    "(set_fc sv w key payload (Some e) = (Inr (), w') \<longrightarrow>
        get (sv\<lparr>time := now\<rparr>) w' key = (Inr payload, w')
        \<and> (\<exists>cs. getStream (sv\<lparr>time := now\<rparr>) w' key = (Inr cs, w') \<and> concat cs = payload))
     \<and> (setStream sv w key stream (Some e) = (Inr (), w') \<longrightarrow>
        get (sv\<lparr>time := now\<rparr>) w' key = (Inr (concat stream), w')
        \<and> (\<exists>cs. getStream (sv\<lparr>time := now\<rparr>) w' key = (Inr cs, w')
              \<and> concat cs = concat stream))
     \<and> (fileCacheSet this fs key payload (Some e) = ([Inr ()], fs') \<longrightarrow>
        fileCacheGet (this\<lparr>clock := now\<rparr>) fs' key = [Inr payload]
        \<and> (\<exists>cs. fileCacheGetStream (this\<lparr>clock := now\<rparr>) fs' key = [Inr cs]
              \<and> concat cs = payload))
     \<and> (fileCacheSetStream this fs key stream (Some e) = ([Inr ()], [], fs') \<longrightarrow>
        fileCacheGet (this\<lparr>clock := now\<rparr>) fs' key = [Inr (concat stream)]
        \<and> (\<exists>cs. fileCacheGetStream (this\<lparr>clock := now\<rparr>) fs' key = [Inr cs]
              \<and> concat cs = concat stream))
     \<and> (keyToPath sv key \<notin> denied (fsys w)
          \<and> keyToPath sv key @ ''.tmp'' \<notin> denied (fsys w) \<longrightarrow>
        fst (set_fc sv w key payload (Some e)) = Inr ()
        \<and> (files (fsys w) (keyToPath sv key @ ''.tmp'') = None \<longrightarrow>
             fst (setStream sv w key stream (Some e)) = Inr ()))
     \<and> (fileCacheKeyToPath this key \<notin> denied fs
          \<and> fileCacheKeyToPath this key @ ''.tmp'' \<notin> denied fs \<longrightarrow>
        fst (fileCacheSet this fs key payload (Some e)) = [Inr ()]
        \<and> (files fs (fileCacheKeyToPath this key @ ''.tmp'') = None \<longrightarrow>
             fst (fileCacheSetStream this fs key stream (Some e)) = [Inr ()]))"
proof -
  from assms(1) have sv: "\<not> js_lt e (time sv)" "\<not> isNaN e"
    by (simp_all add: js_lt_asym js_lt_not_NaN)
  from assms(2) have fc: "\<not> js_lt e (clock this)"
    by (simp add: js_lt_asym)
  have stored:
    "(set_fc sv w key payload (Some e) = (Inr (), w') \<longrightarrow>
        get (sv\<lparr>time := now\<rparr>) w' key = (Inr payload, w')
        \<and> (\<exists>cs. getStream (sv\<lparr>time := now\<rparr>) w' key = (Inr cs, w') \<and> concat cs = payload))
     \<and> (setStream sv w key stream (Some e) = (Inr (), w') \<longrightarrow>
        get (sv\<lparr>time := now\<rparr>) w' key = (Inr (concat stream), w')
        \<and> (\<exists>cs. getStream (sv\<lparr>time := now\<rparr>) w' key = (Inr cs, w')
              \<and> concat cs = concat stream))
     \<and> (fileCacheSet this fs key payload (Some e) = ([Inr ()], fs') \<longrightarrow>
        fileCacheGet (this\<lparr>clock := now\<rparr>) fs' key = [Inr payload]
        \<and> (\<exists>cs. fileCacheGetStream (this\<lparr>clock := now\<rparr>) fs' key = [Inr cs]
              \<and> concat cs = payload))
     \<and> (fileCacheSetStream this fs key stream (Some e) = ([Inr ()], [], fs') \<longrightarrow>
        fileCacheGet (this\<lparr>clock := now\<rparr>) fs' key = [Inr (concat stream)]
        \<and> (\<exists>cs. fileCacheGetStream (this\<lparr>clock := now\<rparr>) fs' key = [Inr cs]
              \<and> concat cs = concat stream))"
    using assms(3) set_fc_ok [of sv w key payload e w'] setStream_ok [of sv w key stream e w']
      fileCacheSet_ok [of this fs key payload e fs']
      fileCacheSetStream_ok [of this fs key stream e fs']
      read_fc_fresh [of w' sv key e _ now] read_FileCache_fresh [of fs' this key e _ now]
    by blast
  have succeeds:
    "(keyToPath sv key \<notin> denied (fsys w)
          \<and> keyToPath sv key @ ''.tmp'' \<notin> denied (fsys w) \<longrightarrow>
        fst (set_fc sv w key payload (Some e)) = Inr ()
        \<and> (files (fsys w) (keyToPath sv key @ ''.tmp'') = None \<longrightarrow>
             fst (setStream sv w key stream (Some e)) = Inr ()))
     \<and> (fileCacheKeyToPath this key \<notin> denied fs
          \<and> fileCacheKeyToPath this key @ ''.tmp'' \<notin> denied fs \<longrightarrow>
        fst (fileCacheSet this fs key payload (Some e)) = [Inr ()]
        \<and> (files fs (fileCacheKeyToPath this key @ ''.tmp'') = None \<longrightarrow>
             fst (fileCacheSetStream this fs key stream (Some e)) = [Inr ()]))"
    by (simp add: set_fc_succeeds [OF sv(1)] setStream_succeeds [OF sv]
        fileCacheSet_succeeds [OF fc] fileCacheSetStream_succeeds [OF fc sv(2)])
  from stored succeeds show ?thesis
    by (intro conjI) (elim conjE, assumption)+
qed

lemma test_lt: "js_lt test_time test_time_plus_1" "\<not> js_lt test_time_plus_1 test_time"
  by (simp_all add: js_lt_def isNaN_def dbl_exp_def dbl_frac_def dbl_ord_def dbl_neg_def
      dbl_mag_def test_time_def test_time_plus_1_def)

lemma test_numbers:
  "\<not> isNaN test_time" "dbl_mag test_time \<noteq> 0"
  "\<not> isNaN test_time_plus_1" "dbl_mag test_time_plus_1 \<noteq> 0"
  "js_lt 0 test_time" "\<not> js_lt MAX_EOL test_time"
  by (simp_all add: js_lt_def isNaN_def dbl_exp_def dbl_frac_def dbl_ord_def dbl_neg_def
      dbl_mag_def test_time_def test_time_plus_1_def MAX_EOL_def)

lemma fileCacheSetStream_test:
  "fst (fileCacheSetStream test_FileCache empty_fs ''plop'' [[1, 3], [3, 7]] (Some test_time_plus_1))
   = [Inr ()]
   \<and> fst (snd (fileCacheSetStream test_FileCache empty_fs ''plop'' [[1, 3], [3, 7]]
         (Some test_time_plus_1))) = []"
  by (simp add: fileCacheSetStream_def test_lt test_numbers fs_defs scenario_defs Let_def
      js_or_def js_falsy_def)

theorem transport_round_trip_witness:
  "js_lt (time test_services) test_time_plus_1 \<and> js_lt (clock test_FileCache) test_time_plus_1
   \<and> js_lt test_time test_time_plus_1
   \<and> keyToPath test_services ''plop'' \<notin> denied (fsys empty_world)
   \<and> keyToPath test_services ''plop'' @ ''.tmp'' \<notin> denied (fsys empty_world)
   \<and> files (fsys empty_world) (keyToPath test_services ''plop'' @ ''.tmp'') = None
   \<and> fileCacheKeyToPath test_FileCache ''plop'' \<notin> denied empty_fs
   \<and> fileCacheKeyToPath test_FileCache ''plop'' @ ''.tmp'' \<notin> denied empty_fs
   \<and> files empty_fs (fileCacheKeyToPath test_FileCache ''plop'' @ ''.tmp'') = None
   \<and> fst (set_fc test_services empty_world ''plop'' [1, 3, 3, 7] (Some test_time_plus_1)) = Inr ()
   \<and> fst (get (test_services\<lparr>time := test_time\<rparr>)
          (snd (set_fc test_services empty_world ''plop'' [1, 3, 3, 7] (Some test_time_plus_1)))
          ''plop'') = Inr [1, 3, 3, 7]
   \<and> fst (setStream test_services empty_world ''plop'' [[1, 3], [3, 7]] (Some test_time_plus_1))
       = Inr ()
   \<and> fst (get (test_services\<lparr>time := test_time\<rparr>)
          (snd (setStream test_services empty_world ''plop'' [[1, 3], [3, 7]]
             (Some test_time_plus_1)))
          ''plop'') = Inr [1, 3, 3, 7]
   \<and> fst (fileCacheSet test_FileCache empty_fs ''plop'' [1, 3, 3, 7] (Some test_time_plus_1))
       = [Inr ()]
   \<and> fileCacheGet (test_FileCache\<lparr>clock := test_time\<rparr>)
        (snd (fileCacheSet test_FileCache empty_fs ''plop'' [1, 3, 3, 7] (Some test_time_plus_1)))
        ''plop'' = [Inr [1, 3, 3, 7]]
   \<and> fst (fileCacheSetStream test_FileCache empty_fs ''plop'' [[1, 3], [3, 7]]
          (Some test_time_plus_1)) = [Inr ()]
   \<and> fileCacheGet (test_FileCache\<lparr>clock := test_time\<rparr>)
        (snd (snd (fileCacheSetStream test_FileCache empty_fs ''plop'' [[1, 3], [3, 7]]
           (Some test_time_plus_1))))
        ''plop'' = [Inr [1, 3, 3, 7]]"
proof -
  let ?e = test_time_plus_1
  let ?w1 = "snd (set_fc test_services empty_world ''plop'' [1, 3, 3, 7] (Some ?e))"
  let ?w2 = "snd (setStream test_services empty_world ''plop'' [[1, 3], [3, 7]] (Some ?e))"
  let ?f1 = "snd (fileCacheSet test_FileCache empty_fs ''plop'' [1, 3, 3, 7] (Some ?e))"
  let ?f2 = "snd (snd (fileCacheSetStream test_FileCache empty_fs ''plop'' [[1, 3], [3, 7]] (Some ?e)))"
  have h1: "js_lt (time test_services) ?e"
    by (simp add: test_services_def test_lt)
  have h2: "js_lt (clock test_FileCache) ?e"
    by (simp add: test_FileCache_def test_lt)
  have h3: "js_lt test_time ?e"
    by (rule test_lt)
  have free: "keyToPath test_services ''plop'' \<notin> denied (fsys empty_world)
      \<and> keyToPath test_services ''plop'' @ ''.tmp'' \<notin> denied (fsys empty_world)"
    "files (fsys empty_world) (keyToPath test_services ''plop'' @ ''.tmp'') = None"
    "fileCacheKeyToPath test_FileCache ''plop'' \<notin> denied empty_fs
      \<and> fileCacheKeyToPath test_FileCache ''plop'' @ ''.tmp'' \<notin> denied empty_fs"
    "files empty_fs (fileCacheKeyToPath test_FileCache ''plop'' @ ''.tmp'') = None"
    by (simp_all add: scenario_defs)
  note stores = transport_round_trip [OF h1 h2 h3, where w = empty_world and key = "''plop''"
        and payload = "[1, 3, 3, 7]" and stream = "[[1, 3], [3, 7]]" and fs = empty_fs]
  from stores free
  have ok1: "fst (set_fc test_services empty_world ''plop'' [1, 3, 3, 7] (Some ?e)) = Inr ()"
    and ok2: "fst (setStream test_services empty_world ''plop'' [[1, 3], [3, 7]] (Some ?e)) = Inr ()"
    and ok3: "fst (fileCacheSet test_FileCache empty_fs ''plop'' [1, 3, 3, 7] (Some ?e)) = [Inr ()]"
    and ok4: "fst (fileCacheSetStream test_FileCache empty_fs ''plop'' [[1, 3], [3, 7]] (Some ?e))
      = [Inr ()]"
    by blast+
  have s1: "set_fc test_services empty_world ''plop'' [1, 3, 3, 7] (Some ?e) = (Inr (), ?w1)"
    using ok1 by (simp add: prod_eq_iff)
  have s2: "setStream test_services empty_world ''plop'' [[1, 3], [3, 7]] (Some ?e) = (Inr (), ?w2)"
    using ok2 by (simp add: prod_eq_iff)
  have s3: "fileCacheSet test_FileCache empty_fs ''plop'' [1, 3, 3, 7] (Some ?e) = ([Inr ()], ?f1)"
    using ok3 by (simp add: prod_eq_iff)
  have s4: "fileCacheSetStream test_FileCache empty_fs ''plop'' [[1, 3], [3, 7]] (Some ?e)
      = ([Inr ()], [], ?f2)"
    using ok4 fileCacheSetStream_test by (simp add: prod_eq_iff)
  have "get (test_services\<lparr>time := test_time\<rparr>) ?w1 ''plop'' = (Inr [1, 3, 3, 7], ?w1)"
    using transport_round_trip [OF h1 h2 h3, where w = empty_world and key = "''plop''"
        and payload = "[1, 3, 3, 7]" and w' = ?w1] s1
    by simp
  moreover
  have "get (test_services\<lparr>time := test_time\<rparr>) ?w2 ''plop'' = (Inr (concat [[1, 3], [3, 7]]), ?w2)"
    using transport_round_trip [OF h1 h2 h3, where w = empty_world and key = "''plop''"
        and stream = "[[1, 3], [3, 7]]" and w' = ?w2] s2
    by simp
  moreover
  have "fileCacheGet (test_FileCache\<lparr>clock := test_time\<rparr>) ?f1 ''plop'' = [Inr [1, 3, 3, 7]]"
    using transport_round_trip [OF h1 h2 h3, where fs = empty_fs and key = "''plop''"
        and payload = "[1, 3, 3, 7]" and fs' = ?f1] s3
    by simp
  moreover
  have "fileCacheGet (test_FileCache\<lparr>clock := test_time\<rparr>) ?f2 ''plop''
      = [Inr (concat [[1, 3], [3, 7]])]"
    using transport_round_trip [OF h1 h2 h3, where fs = empty_fs and key = "''plop''"
        and stream = "[[1, 3], [3, 7]]" and fs' = ?f2] s4
    by simp
  ultimately show ?thesis
    using h1 h2 h3 free ok1 ok2 ok3 ok4 by simp
qed

section \<open>The lock around a write\<close>

lemma set_fc_locks:
  "lock_calls (snd (set_fc sv w key data e))
   = (if js_lt (eol_param sv e) (time sv) then lock_calls w
      else lock_calls w @ [Take key, Release key])"
  by (simp add: set_fc_def Let_def lock_take_def lock_release_def split: prod.splits sum.splits)

lemma setStream_locks:
  "lock_calls (snd (setStream sv w key stream e))
   = (if js_lt (js_or (Some (eol_param sv e)) MAX_EOL) (time sv) then lock_calls w
      else lock_calls w @ [Take key, Release key])"
  by (simp add: setStream_def Let_def lock_take_def lock_release_def
      split: prod.splits sum.splits)

lemma setEOL_locks:
  "lock_calls (snd (setEOL sv w key e))
   = (if js_lt (eol_param sv e) (time sv)
      then (case fs_unlink (fsys w) (keyToPath sv key) of
              Inr fs' \<Rightarrow> lock_calls w @ [Take key]
            | Inl err \<Rightarrow> lock_calls w @ [Take key, Release key])
      else lock_calls w @ [Release key])"
  by (simp add: setEOL_def Let_def lock_take_def lock_release_def
      split: prod.splits sum.splits)

lemma test_zero_lt: "js_lt 0 (time test_services)"
  by (simp add: test_services_def test_numbers)

text \<open>
  C2 fails on \<open>setEOL\<close>. On the bucket of the test suite, \<open>setEOL('plop', 0)\<close> takes
  the lock, deletes the file and returns: the lock is still taken. With a later \<open>eol\<close>
  the same function releases a lock it never took.
\<close>

theorem setEOL_delete_keeps_lock:
  "js_lt 0 (time test_services)
   \<and> fst (setEOL test_services bucket_world ''plop'' (Some 0)) = Inr ()
   \<and> files (fsys (snd (setEOL test_services bucket_world ''plop'' (Some 0))))
        (keyToPath test_services ''plop'') = None
   \<and> lock_calls (snd (setEOL test_services bucket_world ''plop'' (Some 0))) = [Take ''plop'']
   \<and> lock_calls (snd (setEOL test_services bucket_world ''plop'' (Some test_time_plus_1)))
       = [Release ''plop'']"
proof -
  have unlink: "fs_unlink (fsys bucket_world) (keyToPath test_services ''plop'')
      = Inr ((fsys bucket_world)\<lparr>files := (files (fsys bucket_world))
               (keyToPath test_services ''plop'' := None)\<rparr>)"
    by (simp add: bucket_world_def fs_defs scenario_defs)
  have later: "\<not> js_lt test_time_plus_1 (time test_services)"
    by (simp add: test_services_def test_lt)
  have "fst (setEOL test_services bucket_world ''plop'' (Some 0)) = Inr ()"
    by (simp add: setEOL_def eol_param_def test_zero_lt Let_def lock_take_def unlink)
  moreover
  have "files (fsys (snd (setEOL test_services bucket_world ''plop'' (Some 0))))
      (keyToPath test_services ''plop'') = None"
    by (simp add: setEOL_def eol_param_def test_zero_lt Let_def lock_take_def unlink)
  moreover
  have "lock_calls (snd (setEOL test_services bucket_world ''plop'' (Some 0))) = [Take ''plop'']"
    by (simp add: setEOL_locks eol_param_def test_zero_lt unlink) (simp add: bucket_world_def)
  moreover
  have "lock_calls (snd (setEOL test_services bucket_world ''plop'' (Some test_time_plus_1)))
      = [Release ''plop'']"
    by (simp add: setEOL_locks eol_param_def later) (simp add: bucket_world_def)
  ultimately show ?thesis
    using test_zero_lt by simp
qed

section \<open>The temporary file of \<open>set\<close>\<close>

lemma set_fc_write_error:
  assumes "\<not> js_lt e (time sv)"
    and "fs_writeFile (fsys w) (keyToPath sv key @ ''.tmp'')
           (encodeHeader (Some \<lparr>eol = Some e\<rparr>) @ data) \<lparr>flag = None, flags = Some ''wx''\<rparr>
         = Inl err"
  shows "set_fc sv w key data (Some e)
     = (Inl (E_ACCESS key (SysError err)), lock_release (lock_take w key) key)"
  using assms
  by (simp add: set_fc_def set_publish_def eol_param_def Let_def YError_cast_def lock_take_def
      lock_release_def)

text \<open>
  What \<open>set\<close> does to the files once the lock is taken: the header followed by the data
  goes to the temporary file, whatever was there; a refusal is reported as \<open>E_ACCESS\<close>
  with the key, and nothing else is touched; otherwise the bucket file, if there is one, is
  removed, a failure to remove it being ignored, and the temporary file is renamed.
\<close>

lemma set_publish_steps:
  "set_publish fs key dest header data =
     (if dest @ ''.tmp'' \<in> denied fs then (Inl (E_ACCESS key (SysError EACCES)), fs)
      else
        (let fs1 = fs\<lparr>files := (files fs)(dest @ ''.tmp'' \<mapsto> header @ data)\<rparr>;
             fs2 = (if dest \<in> denied fs \<or> files fs dest = None then fs1
                    else fs1\<lparr>files := (files fs1)(dest := None)\<rparr>)
         in if dest \<in> denied fs then (Inl (SysError EACCES), fs2)
            else (Inr (), fs2\<lparr>files := ((files fs2)(dest \<mapsto> header @ data))
                                          (dest @ ''.tmp'' := None)\<rparr>)))"
  by (simp add: set_publish_def fs_defs YError_cast_def Let_def)

text \<open>
  C3 fails where the temporary file exists already. \<open>set\<close> passes \<open>flags: 'wx'\<close> to
  \<open>fs.writeFile\<close>, which reads \<open>flag\<close>: the file is opened with \<open>'w'\<close>. In a
  directory holding a stale \<open>.tmp\<close> file of the key, \<open>set\<close> overwrites it and
  publishes the bucket, in both versions, where \<open>setStream\<close>, whose
  \<open>fs.createWriteStream\<close> does read \<open>flags\<close>, is refused with \<open>E_ACCESS\<close>.
\<close>

theorem set_overwrites_stale_tmp:
  "files (fsys stale_tmp_world) (keyToPath test_services ''plop'' @ ''.tmp'') = Some []
   \<and> fst (set_fc test_services stale_tmp_world ''plop'' [1, 3, 3, 7] (Some test_time_plus_1)) = Inr ()
   \<and> files (fsys (snd (set_fc test_services stale_tmp_world ''plop'' [1, 3, 3, 7]
          (Some test_time_plus_1)))) (keyToPath test_services ''plop'') = Some test_bucket
   \<and> files stale_tmp_fs (fileCacheKeyToPath test_FileCache ''plop'' @ ''.tmp'') = Some []
   \<and> fst (fileCacheSet test_FileCache stale_tmp_fs ''plop'' [1, 3, 3, 7] (Some test_time_plus_1))
       = [Inr ()]
   \<and> files (snd (fileCacheSet test_FileCache stale_tmp_fs ''plop'' [1, 3, 3, 7]
          (Some test_time_plus_1))) (fileCacheKeyToPath test_FileCache ''plop'') = Some test_bucket
   \<and> fst (setStream test_services stale_tmp_world ''plop'' [[1, 3], [3, 7]]
          (Some test_time_plus_1)) = Inl (E_ACCESS ''plop'' (SysError EEXIST))"
  by (simp add: set_fc_def set_publish_def setStream_def setStream_publish_def fileCacheSet_def
      fileCacheCreateHeader_eq eol_param_def js_less_def js_or_def js_falsy_def YError_cast_def
      test_lt test_numbers Let_def stale_tmp_world_def stale_tmp_fs_def test_bucket_def fs_defs
      scenario_defs)

section \<open>Writes with a past \<open>eol\<close>\<close>

lemma test_past: "js_lt test_time_minus_1 test_time" "\<not> js_falsy test_time_minus_1"
  by (simp_all add: js_lt_def js_falsy_def isNaN_def dbl_exp_def dbl_frac_def dbl_ord_def
      dbl_neg_def dbl_mag_def test_time_def test_time_minus_1_def)

lemma js_falsy_0 [simp]: "js_falsy 0"
  by (simp add: js_falsy_def dbl_mag_def)

text \<open>
  The callback-based \<open>setStream\<close> opens its write stream before the check: with a past
  \<open>eol\<close> it reports \<open>E_END_OF_LIFE\<close> and leaves an empty temporary file behind.
\<close>

lemma fileCacheSetStream_expired_test:
  "fileCacheSetStream test_FileCache empty_fs ''plop'' [[1, 3], [3, 7]] (Some test_time_minus_1)
   = ([Inl (E_END_OF_LIFE (Some test_time_minus_1))], [],
      empty_fs\<lparr>files := [fileCacheKeyToPath test_FileCache ''plop'' @ ''.tmp'' \<mapsto> []]\<rparr>)"
  by (simp add: fileCacheSetStream_def js_or_def test_past fs_defs scenario_defs Let_def)

text \<open>
  C4, as stated, fails for \<open>setStream\<close> at \<open>eol = 0\<close>: 0 is before the clock of the
  test suite, yet \<open>setStream('plop', stream, 0)\<close> takes the lock, writes the bucket and
  succeeds.
\<close>

theorem setStream_zero_eol_counterexample:
  "js_lt 0 (time test_services)
   \<and> fst (setStream test_services empty_world ''plop'' [[1, 3], [3, 7]] (Some 0)) = Inr ()
   \<and> lock_calls (snd (setStream test_services empty_world ''plop'' [[1, 3], [3, 7]] (Some 0)))
       = [Take ''plop'', Release ''plop'']
   \<and> files (fsys (snd (setStream test_services empty_world ''plop'' [[1, 3], [3, 7]] (Some 0))))
        (keyToPath test_services ''plop'')
       = Some (encodeHeader (Some \<lparr>eol = Some 0\<rparr>) @ [1, 3, 3, 7])"
proof -
  have sentinel: "\<not> js_lt MAX_EOL (time test_services)"
    by (simp add: test_services_def test_numbers)
  have "lock_calls (snd (setStream test_services empty_world ''plop'' [[1, 3], [3, 7]] (Some 0)))
      = [Take ''plop'', Release ''plop'']"
    by (simp add: setStream_locks eol_param_def js_or_def sentinel) (simp add: empty_world_def)
  moreover
  have "fst (setStream test_services empty_world ''plop'' [[1, 3], [3, 7]] (Some 0)) = Inr ()
    \<and> files (fsys (snd (setStream test_services empty_world ''plop'' [[1, 3], [3, 7]] (Some 0))))
        (keyToPath test_services ''plop'')
       = Some (encodeHeader (Some \<lparr>eol = Some 0\<rparr>) @ [1, 3, 3, 7])"
    using sentinel
    by (simp add: setStream_def setStream_publish_def eol_param_def js_or_def Let_def)
      (simp add: fs_defs scenario_defs)
  ultimately show ?thesis
    using test_zero_lt by simp
qed

text \<open>
  C4, amended: for every \<open>eol\<close> before the clock, \<open>set\<close> fails with
  \<open>E_END_OF_LIFE(eol)\<close> and leaves the lock and the file system as they were, in both
  versions; \<open>setStream\<close> of the promise-based service does the same for every such
  \<open>eol\<close> that is not a zero (a zero is replaced by \<open>0xffffffffffffffff\<close> before the
  check, and the write goes ahead).
\<close>

theorem pre_expired_write:
  "(js_lt e (time sv) \<longrightarrow>
      set_fc sv w key data (Some e) = (Inl (E_END_OF_LIFE (Some e)), w)
      \<and> (\<not> js_falsy e \<longrightarrow>
           setStream sv w key stream (Some e) = (Inl (E_END_OF_LIFE (Some e)), w)))
   \<and> (js_lt e (clock this) \<longrightarrow>
        fileCacheSet this fs key data (Some e) = ([Inl (E_END_OF_LIFE (Some e))], fs))"
  by (simp add: set_fc_def setStream_def fileCacheSet_def eol_param_def js_or_def js_less_def
      Let_def)

theorem pre_expired_write_witness:
  "js_lt test_time_minus_1 (time test_services) \<and> \<not> js_falsy test_time_minus_1
   \<and> js_lt test_time_minus_1 (clock test_FileCache)
   \<and> set_fc test_services bucket_world ''plop'' [1, 3, 3, 7] (Some test_time_minus_1)
       = (Inl (E_END_OF_LIFE (Some test_time_minus_1)), bucket_world)
   \<and> setStream test_services bucket_world ''plop'' [[1, 3], [3, 7]] (Some test_time_minus_1)
       = (Inl (E_END_OF_LIFE (Some test_time_minus_1)), bucket_world)
   \<and> fileCacheSet test_FileCache bucket_fs ''plop'' [1, 3, 3, 7] (Some test_time_minus_1)
       = ([Inl (E_END_OF_LIFE (Some test_time_minus_1))], bucket_fs)"
proof -
  have h1: "js_lt test_time_minus_1 (time test_services)"
    by (simp add: test_services_def test_past)
  have h2: "js_lt test_time_minus_1 (clock test_FileCache)"
    by (simp add: test_FileCache_def test_past)
  from h1 h2 test_past(2) show ?thesis
    using pre_expired_write [of test_time_minus_1 test_services bucket_world "''plop''"
        "[1, 3, 3, 7]" "[[1, 3], [3, 7]]" test_FileCache bucket_fs]
    by simp
qed

section \<open>\<open>setStream\<close> with \<open>eol = 0\<close>\<close>

lemma setStream_not_expired:
  assumes "\<not> js_lt MAX_EOL (time sv)"
  shows "fst (setStream sv w key stream (Some 0)) \<noteq> Inl (E_END_OF_LIFE x)"
  using assms
  by (auto simp add: setStream_def setStream_publish_def eol_param_def js_or_def Let_def
      YError_cast_def split: sum.splits prod.splits if_splits)

lemma fileCacheSetStream_not_expired:
  assumes "\<not> js_lt MAX_EOL (clock this)"
  shows "Inl (E_END_OF_LIFE x) \<notin> set (fst (fileCacheSetStream this fs key stream (Some 0)))"
  using assms
  by (auto simp add: fileCacheSetStream_def js_or_def Let_def split: sum.splits)

lemma read_fc_zero:
  assumes bucket: "files (fsys w) (keyToPath sv key) = Some (encodeHeader (Some \<lparr>eol = Some 0\<rparr>) @ payload)"
    and ok: "keyToPath sv key \<notin> denied (fsys w)"
    and pos: "js_lt 0 now"
  shows "get (sv\<lparr>time := now\<rparr>) w key = (Inl (E_END_OF_LIFE (Some 0)), w)
     \<and> getStream (sv\<lparr>time := now\<rparr>) w key = (Inl (E_END_OF_LIFE (Some 0)), w)"
proof -
  have path: "keyToPath (sv\<lparr>time := now\<rparr>) key = keyToPath sv key"
    by (simp add: keyToPath_def)
  from bucket ok path pos show ?thesis
    using get_bucket [of w "sv\<lparr>time := now\<rparr>" key "Some \<lparr>eol = Some 0\<rparr>" payload]
      getStream_bucket [of w "sv\<lparr>time := now\<rparr>" key "Some \<lparr>eol = Some 0\<rparr>" payload]
    by (auto simp add: js_or_def)
qed

lemma read_FileCache_zero:
  assumes bucket: "files fs (fileCacheKeyToPath this key)
       = Some (encodeHeader (Some \<lparr>eol = Some 0\<rparr>) @ payload)"
    and ok: "fileCacheKeyToPath this key \<notin> denied fs"
    and pos: "js_lt 0 now"
  shows "fileCacheGet (this\<lparr>clock := now\<rparr>) fs key = [Inl (E_END_OF_LIFE (Some 0))]
     \<and> fileCacheGetStream (this\<lparr>clock := now\<rparr>) fs key = [Inl (E_END_OF_LIFE (Some 0))]"
proof -
  have path: "fileCacheKeyToPath (this\<lparr>clock := now\<rparr>) key = fileCacheKeyToPath this key"
    by (simp add: fileCacheKeyToPath_def)
  from bucket ok path pos show ?thesis
    using fileCacheGet_bucket [of fs "this\<lparr>clock := now\<rparr>" key "Some \<lparr>eol = Some 0\<rparr>" payload]
      fileCacheGetStream_bucket [of fs "this\<lparr>clock := now\<rparr>" key "Some \<lparr>eol = Some 0\<rparr>" payload]
    by (auto simp add: js_or_def)
qed

text \<open>
  C10: with a clock that is positive and not beyond \<open>0xffffffffffffffff\<close>,
  \<open>setStream\<close> called with \<open>eol = 0\<close> never fails with \<open>E_END_OF_LIFE\<close>; when it
  succeeds, the bucket on disk starts with the header of \<open>eol = 0\<close>, and every
  \<open>get\<close> and every \<open>getStream\<close> of the key then fails with \<open>E_END_OF_LIFE(0)\<close>.
  This holds for the promise-based service and for the callback-based \<open>FileCache\<close>.
\<close>

theorem setStream_zero_eol_trap:
  assumes "\<not> js_lt MAX_EOL (time sv)" and "\<not> js_lt MAX_EOL (clock this)" and "js_lt 0 now"
  shows
    "(\<forall>x. fst (setStream sv w key stream (Some 0)) \<noteq> Inl (E_END_OF_LIFE x))
     \<and> (setStream sv w key stream (Some 0) = (Inr (), w') \<longrightarrow>
          files (fsys w') (keyToPath sv key)
            = Some (encodeHeader (Some \<lparr>eol = Some 0\<rparr>) @ concat stream)
          \<and> decodeHeader (encodeHeader (Some \<lparr>eol = Some 0\<rparr>) @ concat stream)
            = Inr \<lparr>eol = Some 0\<rparr>
          \<and> get (sv\<lparr>time := now\<rparr>) w' key = (Inl (E_END_OF_LIFE (Some 0)), w')
          \<and> getStream (sv\<lparr>time := now\<rparr>) w' key = (Inl (E_END_OF_LIFE (Some 0)), w'))
     \<and> (\<forall>x. Inl (E_END_OF_LIFE x) \<notin> set (fst (fileCacheSetStream this fs key stream (Some 0))))
     \<and> (fileCacheSetStream this fs key stream (Some 0) = ([Inr ()], [], fs') \<longrightarrow>
          files fs' (fileCacheKeyToPath this key)
            = Some (encodeHeader (Some \<lparr>eol = Some 0\<rparr>) @ concat stream)
          \<and> fileCacheGet (this\<lparr>clock := now\<rparr>) fs' key = [Inl (E_END_OF_LIFE (Some 0))]
          \<and> fileCacheGetStream (this\<lparr>clock := now\<rparr>) fs' key = [Inl (E_END_OF_LIFE (Some 0))])"
proof -
  have dec: "decodeHeader (encodeHeader (Some \<lparr>eol = Some 0\<rparr>) @ concat stream)
      = Inr \<lparr>eol = Some 0\<rparr>"
    by (simp add: decodeHeader_encodeHeader js_or_def)
  show ?thesis
    using assms(3) dec
      setStream_not_expired [OF assms(1), of w key stream]
      fileCacheSetStream_not_expired [OF assms(2), of _ fs key stream]
      setStream_ok [of sv w key stream 0 w'] read_fc_zero [of w' sv key "concat stream" now]
      fileCacheSetStream_ok [of this fs key stream 0 fs']
      read_FileCache_zero [of fs' this key "concat stream" now]
    by blast
qed

lemma setStream_zero_test:
  "fst (setStream test_services empty_world ''plop'' [[1, 3], [3, 7]] (Some 0)) = Inr ()"
  by (simp add: setStream_def setStream_publish_def eol_param_def js_or_def Let_def test_numbers
      fs_defs scenario_defs)

lemma fileCacheSetStream_zero_test:
  "fst (fileCacheSetStream test_FileCache empty_fs ''plop'' [[1, 3], [3, 7]] (Some 0)) = [Inr ()]
   \<and> fst (snd (fileCacheSetStream test_FileCache empty_fs ''plop'' [[1, 3], [3, 7]] (Some 0))) = []"
  by (simp add: fileCacheSetStream_def js_or_def Let_def test_numbers fs_defs scenario_defs)

theorem setStream_zero_eol_trap_witness:
  "\<not> js_lt MAX_EOL (time test_services) \<and> \<not> js_lt MAX_EOL (clock test_FileCache)
   \<and> js_lt 0 test_time_plus_1
   \<and> fst (setStream test_services empty_world ''plop'' [[1, 3], [3, 7]] (Some 0)) = Inr ()
   \<and> fst (get (test_services\<lparr>time := test_time_plus_1\<rparr>)
          (snd (setStream test_services empty_world ''plop'' [[1, 3], [3, 7]] (Some 0)))
          ''plop'') = Inl (E_END_OF_LIFE (Some 0))
   \<and> fst (getStream (test_services\<lparr>time := test_time_plus_1\<rparr>)
          (snd (setStream test_services empty_world ''plop'' [[1, 3], [3, 7]] (Some 0)))
          ''plop'') = Inl (E_END_OF_LIFE (Some 0))
   \<and> fst (fileCacheSetStream test_FileCache empty_fs ''plop'' [[1, 3], [3, 7]] (Some 0)) = [Inr ()]
   \<and> fileCacheGet (test_FileCache\<lparr>clock := test_time_plus_1\<rparr>)
        (snd (snd (fileCacheSetStream test_FileCache empty_fs ''plop'' [[1, 3], [3, 7]] (Some 0))))
        ''plop'' = [Inl (E_END_OF_LIFE (Some 0))]"
proof -
  let ?w = "snd (setStream test_services empty_world ''plop'' [[1, 3], [3, 7]] (Some 0))"
  let ?f = "snd (snd (fileCacheSetStream test_FileCache empty_fs ''plop'' [[1, 3], [3, 7]] (Some 0)))"
  have h1: "\<not> js_lt MAX_EOL (time test_services)"
    by (simp add: test_services_def test_numbers)
  have h2: "\<not> js_lt MAX_EOL (clock test_FileCache)"
    by (simp add: test_FileCache_def test_numbers)
  have h3: "js_lt 0 test_time_plus_1"
    by (simp add: js_lt_def isNaN_def dbl_exp_def dbl_frac_def dbl_ord_def dbl_neg_def
        dbl_mag_def test_time_plus_1_def)
  have s1: "setStream test_services empty_world ''plop'' [[1, 3], [3, 7]] (Some 0) = (Inr (), ?w)"
    using setStream_zero_test by (simp add: prod_eq_iff)
  have s2: "fileCacheSetStream test_FileCache empty_fs ''plop'' [[1, 3], [3, 7]] (Some 0)
      = ([Inr ()], [], ?f)"
    using fileCacheSetStream_zero_test by (simp add: prod_eq_iff)
  note trap = setStream_zero_eol_trap [OF h1 h2 h3, where w = empty_world and key = "''plop''"
      and stream = "[[1, 3], [3, 7]]" and w' = ?w and fs = empty_fs and fs' = ?f]
  from trap s1
  have "get (test_services\<lparr>time := test_time_plus_1\<rparr>) ?w ''plop''
      = (Inl (E_END_OF_LIFE (Some 0)), ?w)"
    by blast
  moreover from trap s1
  have "getStream (test_services\<lparr>time := test_time_plus_1\<rparr>) ?w ''plop''
      = (Inl (E_END_OF_LIFE (Some 0)), ?w)"
    by blast
  moreover from trap s2
  have "fileCacheGet (test_FileCache\<lparr>clock := test_time_plus_1\<rparr>) ?f ''plop''
      = [Inl (E_END_OF_LIFE (Some 0))]"
    by blast
  ultimately show ?thesis
    using h1 h2 h3 setStream_zero_test fileCacheSetStream_zero_test by simp
qed

section \<open>Updating the end of life in place\<close>

lemma js_ge_not_lt: "js_ge a b \<Longrightarrow> \<not> js_lt a b \<and> \<not> isNaN a"
  by (auto simp add: js_ge_def js_lt_def)

lemma js_or_zero_idem: "js_or (Some (js_or (Some e) 0)) 0 = js_or (Some e) 0"
  by (simp add: js_or_def)

lemma encodeHeader_js_or:
  "encodeHeader (Some \<lparr>eol = Some (js_or (Some e) 0)\<rparr>) = encodeHeader (Some \<lparr>eol = Some e\<rparr>)"
  by (simp add: encodeHeader_eq js_or_zero_idem)

lemma setEOL_update_missing:
  "files fs p = None \<Longrightarrow> p \<notin> denied fs \<Longrightarrow> setEOL_update fs p e = (Inl (SysError ENOENT), fs)"
  by (simp add: setEOL_update_def fs_open_def)

lemma setEOL_update_result:
  assumes "files fs p = Some old" and "p \<notin> denied fs"
  shows "fst (setEOL_update fs p e) =
     (case write_fault fs of
        WriteFails err \<Rightarrow> Inl (SysError err)
      | WriteAll \<Rightarrow> Inr ()
      | WriteShort k \<Rightarrow>
          if HEADER_SIZE \<le> k then Inr ()
          else if \<not> second_done_first fs then Inl (E_BAD_WRITE k)
          else if second_runs_first fs then Inr ()
          else Inl (SysError EBADF))"
  using assms
  by (cases "write_fault fs")
    (auto simp add: setEOL_update_def fs_open_def fs_write_def fs_close_def fs_close_twice_def
      settled_def Let_def min_def)

lemma setEOL_update_files:
  assumes "files fs p = Some old" and "p \<notin> denied fs"
  shows "files (snd (setEOL_update fs p e)) =
     (case write_fault fs of
        WriteFails err \<Rightarrow> files fs
      | WriteAll \<Rightarrow> (files fs)(p \<mapsto> encodeHeader (Some \<lparr>eol = Some e\<rparr>) @ drop HEADER_SIZE old)
      | WriteShort k \<Rightarrow>
          (files fs)(p \<mapsto> take k (encodeHeader (Some \<lparr>eol = Some e\<rparr>))
                          @ drop (min k HEADER_SIZE) old))"
  using assms
  by (cases "write_fault fs")
    (auto simp add: setEOL_update_def fs_open_def fs_write_def fs_close_def fs_close_twice_def
      settled_def Let_def min_def)

lemma setEOL_update_denied:
  "p \<in> denied fs \<Longrightarrow> setEOL_update fs p e = (Inl (SysError EACCES), fs)"
  by (simp add: setEOL_update_def fs_open_def)

lemma setEOL_extend:
  assumes "\<not> js_lt e (time sv)"
  shows "fst (setEOL sv w key (Some e)) = fst (setEOL_update (fsys w) (keyToPath sv key) e)"
    and "fsys (snd (setEOL sv w key (Some e))) = snd (setEOL_update (fsys w) (keyToPath sv key) e)"
    and "lock_calls (snd (setEOL sv w key (Some e))) = lock_calls w @ [Release key]"
  using assms
  by (auto simp add: setEOL_def eol_param_def Let_def lock_release_def
      split: prod.splits sum.splits)

lemma setEOL_update_payload:
  assumes "files fs p = Some old"
  shows "\<exists>new. files (snd (setEOL_update fs p e)) p = Some new
     \<and> drop HEADER_SIZE new = drop HEADER_SIZE old"
proof (cases "p \<in> denied fs")
  case True
  with assms show ?thesis
    by (simp add: setEOL_update_denied)
next
  case False
  from setEOL_update_files [OF assms False, of e] assms show ?thesis
    by (cases "write_fault fs") (auto simp add: min_def)
qed

lemma setEOL_update_others:
  assumes "q \<noteq> p"
  shows "files (snd (setEOL_update fs p e)) q = files fs q"
proof (cases "p \<in> denied fs \<or> files fs p = None")
  case True
  then show ?thesis
    by (cases "p \<in> denied fs") (auto simp add: setEOL_update_denied setEOL_update_missing)
next
  case False
  then obtain old where "files fs p = Some old" and "p \<notin> denied fs"
    by auto
  from setEOL_update_files [OF this, of e] assms show ?thesis
    by (cases "write_fault fs") auto
qed

lemma fileCacheSetEOL_missing:
  assumes "js_ge e (clock this)"
    and "files fs (fileCacheKeyToPath this key) = None"
    and "fileCacheKeyToPath this key \<notin> denied fs"
  shows "fileCacheSetEOL this fs key (Some e) = ([Inl (SysError ENOENT)], fs)"
  using assms js_ge_not_lt [OF assms(1)]
  by (simp add: fileCacheSetEOL_def js_or_zero_lt fs_open_def Let_def)

lemma fileCacheSetEOL_denied:
  assumes "js_ge e (clock this)" and "fileCacheKeyToPath this key \<in> denied fs"
  shows "fileCacheSetEOL this fs key (Some e) = ([Inl (SysError EACCES)], fs)"
  using assms js_ge_not_lt [OF assms(1)]
  by (simp add: fileCacheSetEOL_def js_or_zero_lt fs_open_def Let_def)

lemma fileCacheSetEOL_result:
  assumes "js_ge e (clock this)"
    and "files fs (fileCacheKeyToPath this key) = Some old"
    and "fileCacheKeyToPath this key \<notin> denied fs"
  shows "fst (fileCacheSetEOL this fs key (Some e)) =
     (case write_fault fs of
        WriteFails err \<Rightarrow> [Inr (), Inl (SysError err)]
      | WriteAll \<Rightarrow> [Inr (), Inr ()]
      | WriteShort k \<Rightarrow> if k < HEADER_SIZE then [Inr (), Inl (E_BAD_WRITE k)] else [Inr (), Inr ()])"
  using assms js_ge_not_lt [OF assms(1)]
  by (cases "write_fault fs")
    (auto simp add: fileCacheSetEOL_def js_or_zero_lt fileCacheCreateHeader_eq fs_open_def
      fs_write_def fs_close_def Let_def min_def)

lemma fileCacheSetEOL_files:
  assumes "js_ge e (clock this)"
    and "files fs (fileCacheKeyToPath this key) = Some old"
    and "fileCacheKeyToPath this key \<notin> denied fs"
  shows "files (snd (fileCacheSetEOL this fs key (Some e))) =
     (case write_fault fs of
        WriteFails err \<Rightarrow> files fs
      | WriteAll \<Rightarrow> (files fs)(fileCacheKeyToPath this key \<mapsto>
            encodeHeader (Some \<lparr>eol = Some e\<rparr>) @ drop HEADER_SIZE old)
      | WriteShort k \<Rightarrow>
          (files fs)(fileCacheKeyToPath this key \<mapsto>
            take k (encodeHeader (Some \<lparr>eol = Some e\<rparr>)) @ drop (min k HEADER_SIZE) old))"
  using assms js_ge_not_lt [OF assms(1)]
  by (cases "write_fault fs")
    (auto simp add: fileCacheSetEOL_def js_or_zero_lt fileCacheCreateHeader_eq encodeHeader_js_or
      fs_open_def fs_write_def fs_close_def Let_def min_def)

lemma fileCacheSetEOL_payload:
  assumes "js_ge e (clock this)" and "files fs (fileCacheKeyToPath this key) = Some old"
  shows "\<exists>new. files (snd (fileCacheSetEOL this fs key (Some e))) (fileCacheKeyToPath this key)
       = Some new \<and> drop HEADER_SIZE new = drop HEADER_SIZE old"
proof (cases "fileCacheKeyToPath this key \<in> denied fs")
  case True
  with assms show ?thesis
    by (simp add: fileCacheSetEOL_denied)
next
  case False
  from fileCacheSetEOL_files [OF assms False] assms(2) show ?thesis
    by (cases "write_fault fs") (auto simp add: min_def)
qed

lemma fileCacheSetEOL_others:
  assumes "js_ge e (clock this)" and "q \<noteq> fileCacheKeyToPath this key"
  shows "files (snd (fileCacheSetEOL this fs key (Some e))) q = files fs q"
proof (cases "fileCacheKeyToPath this key \<in> denied fs \<or> files fs (fileCacheKeyToPath this key) = None")
  case True
  with assms(1) show ?thesis
    by (cases "fileCacheKeyToPath this key \<in> denied fs")
      (auto simp add: fileCacheSetEOL_denied fileCacheSetEOL_missing)
next
  case False
  then obtain old where "files fs (fileCacheKeyToPath this key) = Some old"
    and "fileCacheKeyToPath this key \<notin> denied fs"
    by auto
  from fileCacheSetEOL_files [OF assms(1) this] assms(2) show ?thesis
    by (cases "write_fault fs") auto
qed

lemma test_ge: "js_ge test_time_plus_ttl test_time"
  by (simp add: js_ge_def isNaN_def dbl_exp_def dbl_frac_def dbl_ord_def dbl_neg_def dbl_mag_def
      test_time_def test_time_plus_ttl_def)

lemma test_bucket_payload: "drop HEADER_SIZE test_bucket = [1, 3, 3, 7]"
  by (simp add: test_bucket_def)

lemma short_write_world_bucket:
  "files (fsys (short_write_world runs_first done_first)) (keyToPath test_services ''plop'')
     = Some test_bucket"
  "keyToPath test_services ''plop'' \<notin> denied (fsys (short_write_world runs_first done_first))"
  "write_fault (fsys (short_write_world runs_first done_first)) = WriteShort 5"
  "second_runs_first (fsys (short_write_world runs_first done_first)) = runs_first"
  "second_done_first (fsys (short_write_world runs_first done_first)) = done_first"
  by (simp_all add: short_write_world_def bucket_world_def empty_fs_def)

text \<open>
  C8 fails on the short write. On the bucket of the test suite, with \<open>fs.write\<close>
  writing 5 of the 20 bytes, \<open>setEOL('plop', 1267833603600)\<close> of the promise-based
  service fails with \<open>E_BAD_WRITE(5)\<close> only when the callback of the first close runs
  first; when the callback of the final close runs first, the call succeeds, or fails with
  \<open>EBADF\<close>, according to which close was carried out first. The callback-based
  \<open>setEOL\<close> calls back without error first and with \<open>E_BAD_WRITE(5)\<close> afterwards.
\<close>

theorem setEOL_short_write_races:
  "js_ge test_time_plus_ttl (time test_services)
   \<and> fst (setEOL test_services (short_write_world False False) ''plop'' (Some test_time_plus_ttl))
       = Inl (E_BAD_WRITE 5)
   \<and> fst (setEOL test_services (short_write_world True True) ''plop'' (Some test_time_plus_ttl))
       = Inr ()
   \<and> fst (setEOL test_services (short_write_world False True) ''plop'' (Some test_time_plus_ttl))
       = Inl (SysError EBADF)
   \<and> fst (fileCacheSetEOL test_FileCache (bucket_fs\<lparr>write_fault := WriteShort 5\<rparr>) ''plop''
          (Some test_time_plus_ttl)) = [Inr (), Inl (E_BAD_WRITE 5)]"
proof -
  have ge: "js_ge test_time_plus_ttl (time test_services)"
    "js_ge test_time_plus_ttl (clock test_FileCache)"
    by (simp_all add: test_services_def test_FileCache_def test_ge)
  note later = js_ge_not_lt [OF ge(1), THEN conjunct1]
  have promise: "fst (setEOL test_services (short_write_world runs_first done_first) ''plop''
        (Some test_time_plus_ttl))
      = (if \<not> done_first then Inl (E_BAD_WRITE 5)
         else if runs_first then Inr () else Inl (SysError EBADF))"
    for runs_first done_first
    by (simp add: setEOL_extend [OF later]
        setEOL_update_result [OF short_write_world_bucket(1,2)] short_write_world_bucket
        HEADER_SIZE_20)
  have callback: "fst (fileCacheSetEOL test_FileCache (bucket_fs\<lparr>write_fault := WriteShort 5\<rparr>)
        ''plop'' (Some test_time_plus_ttl)) = [Inr (), Inl (E_BAD_WRITE 5)]"
    by (simp add: fileCacheSetEOL_result [OF ge(2), where old = test_bucket] bucket_fs_def
        empty_fs_def HEADER_SIZE_20)
  from ge(1) callback show ?thesis
    by (simp add: promise)
qed

section \<open>The default end of life\<close>

lemma test_add: "js_add test_time 0x40AC200000000000 = test_time_plus_ttl"
  by (simp add: js_add_def isNaN_def isInf_def dbl_exp_def dbl_frac_def dbl_scale_def dbl_sig_def
      dbl_neg_def dbl_round_def dbl_pack_def bit_length.simps Let_def test_time_def
      test_time_plus_ttl_def)

lemma test_eol_param: "eol_param test_services None = test_time_plus_ttl"
  by (simp add: eol_param_def test_services_def test_add)

lemma test_ttl_nonzero: "test_time_plus_ttl \<noteq> 0"
  by (simp add: test_time_plus_ttl_def)

lemma eol_param_None: "eol_param sv None = eol_param sv (Some (js_add (time sv) (FS_CACHE_TTL sv)))"
  by (simp add: eol_param_def)

lemma set_fc_default:
  "set_fc sv w key data None = set_fc sv w key data (Some (js_add (time sv) (FS_CACHE_TTL sv)))"
  by (simp add: set_fc_def eol_param_None)

lemma setStream_default:
  "setStream sv w key stream None
   = setStream sv w key stream (Some (js_add (time sv) (FS_CACHE_TTL sv)))"
  by (simp add: setStream_def eol_param_None)

lemma setEOL_default:
  "setEOL sv w key None = setEOL sv w key (Some (js_add (time sv) (FS_CACHE_TTL sv)))"
  by (simp add: setEOL_def eol_param_None)

lemma fileCacheSetEOL_default:
  "fileCacheSetEOL this fs key None = fileCacheSetEOL this fs key (Some 0)"
  by (simp add: fileCacheSetEOL_def js_or_def)

lemma fileCacheSetEOL_delete:
  assumes "js_lt 0 (clock this)"
    and "files fs (fileCacheKeyToPath this key) \<noteq> None"
    and "fileCacheKeyToPath this key \<notin> denied fs"
  shows "fileCacheSetEOL this fs key None
     = ([Inr ()], fs\<lparr>files := (files fs)(fileCacheKeyToPath this key := None)\<rparr>)"
  using assms by (simp add: fileCacheSetEOL_def js_or_def fs_unlink_def Let_def)

text \<open>
  C9, as stated, fails on the promise-based service: on the bucket of the test suite,
  with a time to live of 3600, \<open>setEOL('plop')\<close> with \<open>eol\<close> omitted uses
  1267833603600, not 0, and the bucket file is still there afterwards, with the new header.
\<close>

theorem setEOL_omitted_eol_counterexample:
  "eol_param test_services None = test_time_plus_ttl \<and> eol_param test_services None \<noteq> 0
   \<and> fst (setEOL test_services bucket_world ''plop'' None) = Inr ()
   \<and> files (fsys (snd (setEOL test_services bucket_world ''plop'' None)))
        (keyToPath test_services ''plop'')
       = Some (encodeHeader (Some \<lparr>eol = Some test_time_plus_ttl\<rparr>) @ [1, 3, 3, 7])"
proof -
  have later: "\<not> js_lt test_time_plus_ttl (time test_services)"
    using js_ge_not_lt [OF test_ge] by (simp add: test_services_def)
  have bucket: "files (fsys bucket_world) (keyToPath test_services ''plop'') = Some test_bucket"
    "keyToPath test_services ''plop'' \<notin> denied (fsys bucket_world)"
    "write_fault (fsys bucket_world) = WriteAll"
    by (simp_all add: bucket_world_def empty_fs_def)
  have "js_add (time test_services) (FS_CACHE_TTL test_services) = test_time_plus_ttl"
    by (simp add: test_services_def test_add)
  then have same: "setEOL test_services bucket_world ''plop'' None
      = setEOL test_services bucket_world ''plop'' (Some test_time_plus_ttl)"
    by (simp add: setEOL_default)
  show ?thesis
    unfolding same
    by (simp add: test_eol_param test_ttl_nonzero setEOL_extend [OF later]
        setEOL_update_result [OF bucket(1,2)] setEOL_update_files [OF bucket(1,2)] bucket(3)
        test_bucket_payload)
qed

text \<open>
  C9, amended: in the promise-based service \<open>set\<close>, \<open>setStream\<close> and \<open>setEOL\<close>
  called with \<open>eol\<close> omitted behave as with \<open>eol = time() + FS_CACHE_TTL\<close>: the header
  they store carries that value, and \<open>setEOL\<close>, when that value is not before the clock,
  rewrites the header and keeps the file. In the callback-based \<open>FileCache\<close>, which has
  no time to live, \<open>setEOL\<close> with \<open>eol\<close> omitted behaves as with \<open>eol = 0\<close>: under a
  positive clock it deletes the bucket file.
\<close>

theorem default_eol:
  "set_fc sv w key data None = set_fc sv w key data (Some (js_add (time sv) (FS_CACHE_TTL sv)))
   \<and> setStream sv w key stream None
       = setStream sv w key stream (Some (js_add (time sv) (FS_CACHE_TTL sv)))
   \<and> setEOL sv w key None = setEOL sv w key (Some (js_add (time sv) (FS_CACHE_TTL sv)))
   \<and> (set_fc sv w key data None = (Inr (), w') \<longrightarrow>
        files (fsys w') (keyToPath sv key)
        = Some (encodeHeader (Some \<lparr>eol = Some (js_add (time sv) (FS_CACHE_TTL sv))\<rparr>) @ data))
   \<and> (setStream sv w key stream None = (Inr (), w') \<longrightarrow>
        files (fsys w') (keyToPath sv key)
        = Some (encodeHeader (Some \<lparr>eol = Some (js_add (time sv) (FS_CACHE_TTL sv))\<rparr>)
                @ concat stream))
   \<and> (js_ge (js_add (time sv) (FS_CACHE_TTL sv)) (time sv)
        \<and> files (fsys w) (keyToPath sv key) = Some old
        \<and> keyToPath sv key \<notin> denied (fsys w) \<and> write_fault (fsys w) = WriteAll \<longrightarrow>
        fst (setEOL sv w key None) = Inr ()
        \<and> files (fsys (snd (setEOL sv w key None))) (keyToPath sv key)
            = Some (encodeHeader (Some \<lparr>eol = Some (js_add (time sv) (FS_CACHE_TTL sv))\<rparr>)
                    @ drop HEADER_SIZE old))
   \<and> fileCacheSetEOL this fs key None = fileCacheSetEOL this fs key (Some 0)
   \<and> (js_lt 0 (clock this) \<and> files fs (fileCacheKeyToPath this key) \<noteq> None
        \<and> fileCacheKeyToPath this key \<notin> denied fs \<longrightarrow>
        fileCacheSetEOL this fs key None
        = ([Inr ()], fs\<lparr>files := (files fs)(fileCacheKeyToPath this key := None)\<rparr>))"
proof -
  let ?e = "js_add (time sv) (FS_CACHE_TTL sv)"
  have upd: "js_ge ?e (time sv)
        \<and> files (fsys w) (keyToPath sv key) = Some old
        \<and> keyToPath sv key \<notin> denied (fsys w) \<and> write_fault (fsys w) = WriteAll \<longrightarrow>
        fst (setEOL sv w key None) = Inr ()
        \<and> files (fsys (snd (setEOL sv w key None))) (keyToPath sv key)
            = Some (encodeHeader (Some \<lparr>eol = Some ?e\<rparr>) @ drop HEADER_SIZE old)"
  proof
    assume h: "js_ge ?e (time sv)
        \<and> files (fsys w) (keyToPath sv key) = Some old
        \<and> keyToPath sv key \<notin> denied (fsys w) \<and> write_fault (fsys w) = WriteAll"
    then have later: "\<not> js_lt ?e (time sv)"
      using js_ge_not_lt by blast
    from h show "fst (setEOL sv w key None) = Inr ()
        \<and> files (fsys (snd (setEOL sv w key None))) (keyToPath sv key)
            = Some (encodeHeader (Some \<lparr>eol = Some ?e\<rparr>) @ drop HEADER_SIZE old)"
      unfolding setEOL_default
      by (simp add: setEOL_extend [OF later] setEOL_update_result setEOL_update_files)
  qed
  from upd show ?thesis
    using set_fc_ok [of sv w key data ?e w'] setStream_ok [of sv w key stream ?e w']
      fileCacheSetEOL_delete [of this fs key]
    by (simp add: set_fc_default setStream_default setEOL_default fileCacheSetEOL_default)
qed

lemma test_ttl_later: "\<not> js_lt test_time_plus_ttl test_time" "\<not> js_falsy test_time_plus_ttl"
  by (simp_all add: js_lt_def js_falsy_def isNaN_def dbl_exp_def dbl_frac_def dbl_ord_def
      dbl_neg_def dbl_mag_def test_time_def test_time_plus_ttl_def)

lemma test_sum: "js_add (time test_services) (FS_CACHE_TTL test_services) = test_time_plus_ttl"
  by (simp add: test_services_def test_add)

lemma set_fc_default_test:
  "fst (set_fc test_services empty_world ''plop'' [1, 3, 3, 7] None) = Inr ()"
  unfolding set_fc_default test_sum
  by (simp add: set_fc_def set_publish_def eol_param_def test_ttl_later fs_defs scenario_defs
      Let_def)

lemma setStream_default_test:
  "fst (setStream test_services empty_world ''plop'' [[1, 3], [3, 7]] None) = Inr ()"
  unfolding setStream_default test_sum
  by (simp add: setStream_def setStream_publish_def eol_param_def js_or_def test_ttl_later
      fs_defs scenario_defs Let_def)

theorem default_eol_witness:
  "fst (set_fc test_services empty_world ''plop'' [1, 3, 3, 7] None) = Inr ()
   \<and> files (fsys (snd (set_fc test_services empty_world ''plop'' [1, 3, 3, 7] None)))
        (keyToPath test_services ''plop'')
       = Some (encodeHeader (Some \<lparr>eol = Some test_time_plus_ttl\<rparr>) @ [1, 3, 3, 7])
   \<and> fst (setStream test_services empty_world ''plop'' [[1, 3], [3, 7]] None) = Inr ()
   \<and> files (fsys (snd (setStream test_services empty_world ''plop'' [[1, 3], [3, 7]] None)))
        (keyToPath test_services ''plop'')
       = Some (encodeHeader (Some \<lparr>eol = Some test_time_plus_ttl\<rparr>) @ [1, 3, 3, 7])
   \<and> js_ge (js_add (time test_services) (FS_CACHE_TTL test_services)) (time test_services)
   \<and> files (fsys bucket_world) (keyToPath test_services ''plop'') = Some test_bucket
   \<and> keyToPath test_services ''plop'' \<notin> denied (fsys bucket_world)
   \<and> write_fault (fsys bucket_world) = WriteAll
   \<and> fst (setEOL test_services bucket_world ''plop'' None) = Inr ()
   \<and> files (fsys (snd (setEOL test_services bucket_world ''plop'' None)))
        (keyToPath test_services ''plop'')
       = Some (encodeHeader (Some \<lparr>eol = Some test_time_plus_ttl\<rparr>) @ [1, 3, 3, 7])
   \<and> js_lt 0 (clock test_FileCache)
   \<and> files bucket_fs (fileCacheKeyToPath test_FileCache ''plop'') \<noteq> None
   \<and> fileCacheKeyToPath test_FileCache ''plop'' \<notin> denied bucket_fs
   \<and> fst (fileCacheSetEOL test_FileCache bucket_fs ''plop'' None) = [Inr ()]
   \<and> files (snd (fileCacheSetEOL test_FileCache bucket_fs ''plop'' None))
        (fileCacheKeyToPath test_FileCache ''plop'') = None"
proof -
  let ?w1 = "snd (set_fc test_services empty_world ''plop'' [1, 3, 3, 7] None)"
  let ?w2 = "snd (setStream test_services empty_world ''plop'' [[1, 3], [3, 7]] None)"
  have s1: "set_fc test_services empty_world ''plop'' [1, 3, 3, 7] None = (Inr (), ?w1)"
    using set_fc_default_test by (simp add: prod_eq_iff)
  have s2: "setStream test_services empty_world ''plop'' [[1, 3], [3, 7]] None = (Inr (), ?w2)"
    using setStream_default_test by (simp add: prod_eq_iff)
  have ge: "js_ge (js_add (time test_services) (FS_CACHE_TTL test_services)) (time test_services)"
    unfolding test_sum by (simp add: test_services_def test_ge)
  have bucket: "files (fsys bucket_world) (keyToPath test_services ''plop'') = Some test_bucket"
    "keyToPath test_services ''plop'' \<notin> denied (fsys bucket_world)"
    "write_fault (fsys bucket_world) = WriteAll"
    "files bucket_fs (fileCacheKeyToPath test_FileCache ''plop'') \<noteq> None"
    "fileCacheKeyToPath test_FileCache ''plop'' \<notin> denied bucket_fs"
    by (simp_all add: bucket_world_def bucket_fs_def empty_fs_def)
  have pos: "js_lt 0 (clock test_FileCache)"
    by (simp add: test_FileCache_def test_numbers)
  note stored1 = default_eol [where sv = test_services and w = empty_world and key = "''plop''"
      and data = "[1, 3, 3, 7]" and w' = ?w1]
  note stored2 = default_eol [where sv = test_services and w = empty_world and key = "''plop''"
      and stream = "[[1, 3], [3, 7]]" and w' = ?w2]
  note updated = default_eol [where sv = test_services and w = bucket_world and key = "''plop''"
      and old = test_bucket and this = test_FileCache and fs = bucket_fs]
  from stored1 s1
  have "files (fsys ?w1) (keyToPath test_services ''plop'')
      = Some (encodeHeader (Some \<lparr>eol = Some (js_add (time test_services)
                (FS_CACHE_TTL test_services))\<rparr>) @ [1, 3, 3, 7])"
    by blast
  moreover from stored2 s2
  have "files (fsys ?w2) (keyToPath test_services ''plop'')
      = Some (encodeHeader (Some \<lparr>eol = Some (js_add (time test_services)
                (FS_CACHE_TTL test_services))\<rparr>) @ concat [[1, 3], [3, 7]])"
    by blast
  moreover from updated ge bucket
  have "fst (setEOL test_services bucket_world ''plop'' None) = Inr ()
      \<and> files (fsys (snd (setEOL test_services bucket_world ''plop'' None)))
          (keyToPath test_services ''plop'')
        = Some (encodeHeader (Some \<lparr>eol = Some (js_add (time test_services)
                  (FS_CACHE_TTL test_services))\<rparr>) @ drop HEADER_SIZE test_bucket)"
    by blast
  moreover from updated pos bucket
  have "fileCacheSetEOL test_FileCache bucket_fs ''plop'' None
      = ([Inr ()], bucket_fs\<lparr>files := (files bucket_fs)
            (fileCacheKeyToPath test_FileCache ''plop'' := None)\<rparr>)"
    by blast
  ultimately show ?thesis
    using set_fc_default_test setStream_default_test ge bucket pos
    by (simp add: test_sum test_bucket_payload)
qed

end
